theory Spec2Isabelle
  imports Main
begin

section \<open>Strings\<close>

text \<open>
  A JavaScript string is modelled as the list of its code units, restricted to the code
  units below 256 (the Latin-1 range), which is what an 8-bit \<^typ>\<open>char\<close> carries.
  The functions below are the ones of \<open>String.prototype\<close> that the sources call.
\<close>

text \<open>White space as \<open>String.prototype.trim\<close> and the regular-expression class
  \<open>\s\<close> see it: TAB, LF, VT, FF, CR, SP and NBSP.\<close>

definition isWhiteSpace :: "char \<Rightarrow> bool" where
  "isWhiteSpace c =
     (c = CHR 0x09 \<or> c = CHR 0x0A \<or> c = CHR 0x0B \<or> c = CHR 0x0C \<or> c = CHR 0x0D
      \<or> c = CHR '' '' \<or> c = CHR 0xA0)"

definition trim :: "string \<Rightarrow> string" where
  "trim s = rev (dropWhile isWhiteSpace (rev (dropWhile isWhiteSpace s)))"

fun startsWith :: "string \<Rightarrow> string \<Rightarrow> bool" where
  "startsWith s [] = True"
| "startsWith [] (p # ps) = False"
| "startsWith (c # cs) (p # ps) = (c = p \<and> startsWith cs ps)"

fun includes_str :: "string \<Rightarrow> string \<Rightarrow> bool" where
  "includes_str [] sub = (sub = [])"
| "includes_str (c # cs) sub = (startsWith (c # cs) sub \<or> includes_str cs sub)"

section \<open>Maps\<close>

text \<open>\<open>Map.prototype.set\<close> on an insertion-ordered association list: an existing key
  keeps its position and takes the new value, a new key goes to the end.\<close>

fun mapSet :: "('k \<times> 'v) list \<Rightarrow> 'k \<Rightarrow> 'v \<Rightarrow> ('k \<times> 'v) list" where
  "mapSet [] k v = [(k, v)]"
| "mapSet ((k', v') # m) k v = (if k' = k then (k, v) # m else (k', v') # mapSet m k v)"

section \<open>Data model (types.ts)\<close>

datatype ChangeType = Added | Removed | Major | Minor | Patch | Prerelease | Other

datatype Ecosystem = Node | Python | Go | Ruby | Java | Rust | Dotnet

datatype DependencyType = Production | Development | Optional | Peer | Build | Test

record DependencyChange =
  name :: string
  ecosystem :: Ecosystem
  file' :: string
  oldVersion :: "string option"
  newVersion :: "string option"
  changeType :: ChangeType
  dependencyType :: DependencyType

section \<open>Version classifier and differ (version.ts)\<close>

text \<open>The character class \<open>[\^~=<>!]\<close>.\<close>

definition isRangeOperator :: "char \<Rightarrow> bool" where
  "isRangeOperator c = (c \<in> set ''^~=<>!'')"

text \<open>\<open>version.replace(/^[\^~=<>!]+/, '').trim()\<close>: the anchored, greedy run of
  operator characters is removed first, the result is trimmed afterwards.\<close>

definition cleanVersion :: "string \<Rightarrow> string" where
  "cleanVersion version = trim (dropWhile isRangeOperator version)"

text \<open>
  The three functions of the \<open>semver\<close> package that \<open>determineChangeType\<close> calls.
  The package is a dependency of the repository, not part of it, so it is a parameter:
  \<open>coerce\<close> returns a version object or \<open>null\<close>, \<open>prerelease\<close> the array of
  prerelease identifiers or \<open>null\<close>, \<open>diff\<close> the name of the difference or \<open>null\<close>.
\<close>

record ('v, 'p) semver =
  coerce :: "string \<Rightarrow> 'v option"
  prerelease :: "string \<Rightarrow> 'p list option"
  diff :: "'v \<Rightarrow> 'v \<Rightarrow> string option"

text \<open>The classification of a non-null \<open>diff\<close>; the empty string is falsy, as
  \<open>null\<close> is.\<close>

definition classifyDiff :: "string \<Rightarrow> ChangeType" where
  "classifyDiff d =
     (if d = [] then Other
      else if includes_str d ''major'' then Major
      else if includes_str d ''minor'' then Minor
      else if includes_str d ''patch'' then Patch
      else if includes_str d ''prerelease'' \<or> includes_str d ''pre'' then Prerelease
      else Other)"

definition determineChangeType :: "('v, 'p) semver \<Rightarrow> string \<Rightarrow> string \<Rightarrow> ChangeType" where
  "determineChangeType sv oldV newV =
     (let cleanOld = cleanVersion oldV;
          cleanNew = cleanVersion newV
      in case (coerce sv cleanOld, coerce sv cleanNew) of
           (Some semverOld, Some semverNew) \<Rightarrow>
             (if prerelease sv cleanNew \<noteq> None then Prerelease
              else case diff sv semverOld semverNew of
                     None \<Rightarrow> Other
                   | Some d \<Rightarrow> classifyDiff d)
         | _ \<Rightarrow> (if cleanOld \<noteq> cleanNew then Other else Other))"

text \<open>
  A \<open>Map<string, string>\<close> is an association list in insertion order; the keys of a
  \<open>Map\<close> are distinct. \<open>Map.get\<close> is \<^const>\<open>map_of\<close>, \<open>Map.has\<close> is membership
  among the keys.
\<close>

type_synonym DepMap = "(string \<times> string) list"

definition has :: "DepMap \<Rightarrow> string \<Rightarrow> bool" where
  "has m k = (k \<in> fst ` set m)"

text \<open>The body of the first loop for one entry of \<open>oldDeps\<close>. The test
  \<open>!newVersion\<close> holds for \<open>undefined\<close> (no entry) and for the empty string.\<close>

definition checkOld ::
  "('v, 'p) semver \<Rightarrow> DepMap \<Rightarrow> Ecosystem \<Rightarrow> string \<Rightarrow> DependencyType
     \<Rightarrow> string \<times> string \<Rightarrow> DependencyChange list" where
  "checkOld sv newDeps eco f dt entry =
     (case entry of (nm, oldV) \<Rightarrow>
        (case map_of newDeps nm of
           None \<Rightarrow>
             [\<lparr>name = nm, ecosystem = eco, file' = f, oldVersion = Some oldV,
               newVersion = None, changeType = Removed, dependencyType = dt\<rparr>]
         | Some newV \<Rightarrow>
             if newV = [] then
               [\<lparr>name = nm, ecosystem = eco, file' = f, oldVersion = Some oldV,
                 newVersion = None, changeType = Removed, dependencyType = dt\<rparr>]
             else if cleanVersion oldV \<noteq> cleanVersion newV then
               [\<lparr>name = nm, ecosystem = eco, file' = f, oldVersion = Some oldV,
                 newVersion = Some newV, changeType = determineChangeType sv oldV newV,
                 dependencyType = dt\<rparr>]
             else []))"

text \<open>The body of the second loop for one entry of \<open>newDeps\<close>.\<close>

definition checkNew ::
  "DepMap \<Rightarrow> Ecosystem \<Rightarrow> string \<Rightarrow> DependencyType
     \<Rightarrow> string \<times> string \<Rightarrow> DependencyChange list" where
  "checkNew oldDeps eco f dt entry =
     (case entry of (nm, newV) \<Rightarrow>
        if \<not> has oldDeps nm then
          [\<lparr>name = nm, ecosystem = eco, file' = f, oldVersion = None,
            newVersion = Some newV, changeType = Added, dependencyType = dt\<rparr>]
        else [])"

definition compareVersions ::
  "('v, 'p) semver \<Rightarrow> DepMap \<Rightarrow> DepMap \<Rightarrow> Ecosystem \<Rightarrow> string \<Rightarrow> DependencyType
     \<Rightarrow> DependencyChange list" where
  "compareVersions sv oldDeps newDeps eco f dt =
     concat (map (checkOld sv newDeps eco f dt) oldDeps)
     @ concat (map (checkNew oldDeps eco f dt) newDeps)"

text \<open>Whether a string begins with a character of the class \<open>[\^~=<>!]\<close>.\<close>

definition startsWithOperator :: "string \<Rightarrow> bool" where
  "startsWithOperator s = (case s of [] \<Rightarrow> False | c # _ \<Rightarrow> isRangeOperator c)"

subsection \<open>The semver package on the version strings of version.test.ts\<close>

text \<open>
  For evaluating the classifier on concrete inputs: the results of \<open>semver.coerce\<close> and
  \<open>semver.prerelease\<close> on the version strings that the repository's tests use, as a
  table, and \<open>semver.diff\<close> on two coerced versions, which carry no prerelease part:
  the first differing component names the difference, equal versions give \<open>null\<close>.
\<close>

definition diffTriple :: "nat \<times> nat \<times> nat \<Rightarrow> nat \<times> nat \<times> nat \<Rightarrow> string option" where
  "diffTriple v1 v2 =
     (case (v1, v2) of ((ma1, mi1, pa1), (ma2, mi2, pa2)) \<Rightarrow>
        if ma1 \<noteq> ma2 then Some ''major''
        else if mi1 \<noteq> mi2 then Some ''minor''
        else if pa1 \<noteq> pa2 then Some ''patch''
        else None)"

definition semver_on_tests :: "(nat \<times> nat \<times> nat, string) semver" where
  "semver_on_tests =
     \<lparr>coerce = map_of
        [(''1.0.0'', (1, 0, 0)), (''2.0.0'', (2, 0, 0)), (''1.1.0'', (1, 1, 0)),
         (''1.0.1'', (1, 0, 1)), (''1.2.3'', (1, 2, 3)), (''1.3.0'', (1, 3, 0)),
         (''1.2.4'', (1, 2, 4)), (''1.0.1-beta.1'', (1, 0, 1)),
         (''2.0.0-alpha.1'', (2, 0, 0)), (''4.17.20'', (4, 17, 20)),
         (''4.17.21'', (4, 17, 21))],
      prerelease = map_of
        [(''1.0.1-beta.1'', [''beta'', ''1'']), (''2.0.0-alpha.1'', [''alpha'', ''1''])],
      diff = diffTriple\<rparr>"

section \<open>Cross-file reconciler (main.ts)\<close>

text \<open>The string that a template literal prints for an ecosystem.\<close>

definition ecosystemName :: "Ecosystem \<Rightarrow> string" where
  "ecosystemName e =
     (case e of Node \<Rightarrow> ''node'' | Python \<Rightarrow> ''python'' | Go \<Rightarrow> ''go'' | Ruby \<Rightarrow> ''ruby''
      | Java \<Rightarrow> ''java'' | Rust \<Rightarrow> ''rust'' | Dotnet \<Rightarrow> ''dotnet'')"

text \<open>The key \<open>`${change.ecosystem}:${change.name}`\<close>.\<close>

definition changeKey :: "DependencyChange \<Rightarrow> string" where
  "changeKey change = ecosystemName (ecosystem change) @ '':'' @ name change"

text \<open>\<open>file.includes('lock') || file.includes('.lock')\<close>.\<close>

definition isLockFile :: "string \<Rightarrow> bool" where
  "isLockFile f = (includes_str f ''lock'' \<or> includes_str f ''.lock'')"

text \<open>One iteration of the loop of \<open>deduplicateChanges\<close> over the map \<open>seen\<close>.\<close>

definition dedupStep ::
  "(string \<times> DependencyChange) list \<Rightarrow> DependencyChange \<Rightarrow> (string \<times> DependencyChange) list" where
  "dedupStep seen change =
     (let key = changeKey change in
      case map_of seen key of
        None \<Rightarrow> mapSet seen key change
      | Some existing \<Rightarrow>
          if isLockFile (file' existing) \<and> \<not> isLockFile (file' change)
          then mapSet seen key change
          else seen)"

text \<open>\<open>Array.from(seen.values())\<close> after the loop.\<close>

definition deduplicateChanges :: "DependencyChange list \<Rightarrow> DependencyChange list" where
  "deduplicateChanges changes = map snd (foldl dedupStep [] changes)"

text \<open>
  What the specification keeps for a key, in its own words: the first change of that key
  whose file is not a lock file, and the first change of that key when all are lock
  files. The loop above is compared with it.
\<close>

definition spec_survivor :: "DependencyChange list \<Rightarrow> string \<Rightarrow> DependencyChange option" where
  "spec_survivor cs k =
     (case find (\<lambda>c. changeKey c = k \<and> \<not> isLockFile (file' c)) cs of
        Some m \<Rightarrow> Some m
      | None \<Rightarrow> find (\<lambda>c. changeKey c = k) cs)"

text \<open>Two changes for the package \<open>foo\<close>, one from the manifest and one from the lock
  file, as in the reconciliation scenario of the specification.\<close>

definition foo_manifest :: DependencyChange where
  "foo_manifest = \<lparr>name = ''foo'', ecosystem = Node, file' = ''package.json'',
     oldVersion = Some ''^1.0.0'', newVersion = Some ''^1.1.0'', changeType = Minor,
     dependencyType = Production\<rparr>"

definition foo_lock :: DependencyChange where
  "foo_lock = \<lparr>name = ''foo'', ecosystem = Node, file' = ''package-lock.json'',
     oldVersion = Some ''1.0.3'', newVersion = Some ''1.1.0'', changeType = Minor,
     dependencyType = Production\<rparr>"

section \<open>JavaScript values and strings used by the parsers\<close>

text \<open>\<open>String.prototype.toLowerCase\<close> on the code units below 256: the letters
  \<open>A\<close> to \<open>Z\<close> and the upper-case letters of Latin-1 (0xC0 to 0xDE without the
  multiplication sign 0xD7) move up by 32, every other code unit stays.\<close>

definition upperCaseChars :: string where
  "upperCaseChars = ''ABCDEFGHIJKLMNOPQRSTUVWXYZ'' @
     [CHR 0xC0, CHR 0xC1, CHR 0xC2, CHR 0xC3, CHR 0xC4, CHR 0xC5, CHR 0xC6, CHR 0xC7, CHR 0xC8, CHR 0xC9, CHR 0xCA,
      CHR 0xCB, CHR 0xCC, CHR 0xCD, CHR 0xCE, CHR 0xCF, CHR 0xD0, CHR 0xD1, CHR 0xD2, CHR 0xD3, CHR 0xD4, CHR 0xD5,
      CHR 0xD6, CHR 0xD8, CHR 0xD9, CHR 0xDA, CHR 0xDB, CHR 0xDC, CHR 0xDD, CHR 0xDE]"

definition lowerCaseChars :: string where
  "lowerCaseChars = ''abcdefghijklmnopqrstuvwxyz'' @
     [CHR 0xE0, CHR 0xE1, CHR 0xE2, CHR 0xE3, CHR 0xE4, CHR 0xE5, CHR 0xE6, CHR 0xE7, CHR 0xE8, CHR 0xE9, CHR 0xEA,
      CHR 0xEB, CHR 0xEC, CHR 0xED, CHR 0xEE, CHR 0xEF, CHR 0xF0, CHR 0xF1, CHR 0xF2, CHR 0xF3, CHR 0xF4, CHR 0xF5,
      CHR 0xF6, CHR 0xF8, CHR 0xF9, CHR 0xFA, CHR 0xFB, CHR 0xFC, CHR 0xFD, CHR 0xFE]"

definition toLowerChar :: "char \<Rightarrow> char" where
  "toLowerChar c =
     (case map_of (zip upperCaseChars lowerCaseChars) c of Some l \<Rightarrow> l | None \<Rightarrow> c)"

definition toLowerCase :: "string \<Rightarrow> string" where
  "toLowerCase s = map toLowerChar s"

text \<open>\<open>content.split('\n')\<close>, for a one-character separator.\<close>

fun split :: "char \<Rightarrow> string \<Rightarrow> string list" where
  "split sep [] = [[]]"
| "split sep (c # cs) =
     (if c = sep then [] # split sep cs
      else case split sep cs of
             [] \<Rightarrow> [[c]]
           | piece # pieces \<Rightarrow> (c # piece) # pieces)"

text \<open>
  What \<open>JSON.parse\<close> and \<open>toml.parse\<close> return. A number is kept as an integer, since
  the parsers observe of a number only whether it is truthy; a TOML date is a \<open>Date\<close>
  object, which has no own enumerable property and is not iterable, like \<open>JObj []\<close>.
  The entries of a \<open>JObj\<close> are in the enumeration order of the object.
\<close>

datatype jsval =
    JUndefined
  | JNull
  | JBool bool
  | JNum int
  | JStr string
  | JArr "jsval list"
  | JObj "(string \<times> jsval) list"

fun truthy :: "jsval \<Rightarrow> bool" where
  "truthy JUndefined = False"
| "truthy JNull = False"
| "truthy (JBool b) = b"
| "truthy (JNum n) = (n \<noteq> 0)"
| "truthy (JStr s) = (s \<noteq> [])"
| "truthy (JArr xs) = True"
| "truthy (JObj kvs) = True"

text \<open>
  Reading a property \<open>v.k\<close>, for the property names that the parsers read (none of
  them is a built-in member of strings, numbers, booleans or arrays). \<open>None\<close> is the
  \<open>TypeError\<close> of reading a property of \<open>undefined\<close> or \<open>null\<close>.
\<close>

fun getProp :: "jsval \<Rightarrow> string \<Rightarrow> jsval option" where
  "getProp JUndefined k = None"
| "getProp JNull k = None"
| "getProp (JObj kvs) k = Some (case map_of kvs k of Some v \<Rightarrow> v | None \<Rightarrow> JUndefined)"
| "getProp v k = Some JUndefined"

text \<open>Optional chaining \<open>v?.k\<close>.\<close>

definition optChain :: "jsval \<Rightarrow> string \<Rightarrow> jsval" where
  "optChain v k = (case getProp v k of None \<Rightarrow> JUndefined | Some x \<Rightarrow> x)"

text \<open>The decimal numeral of an array index, as a property name.\<close>

fun digitsOf :: "nat \<Rightarrow> nat \<Rightarrow> string" where
  "digitsOf 0 n = []"
| "digitsOf (Suc fuel) n =
     (if n < 10 then [''0123456789'' ! n]
      else digitsOf fuel (n div 10) @ [''0123456789'' ! (n mod 10)])"

definition indexName :: "nat \<Rightarrow> string" where
  "indexName n = digitsOf (Suc n) n"

text \<open>\<open>Object.entries(v)\<close>: the own enumerable properties of an object, the indexed
  elements of an array, the indexed characters of a string, nothing for a number or a
  boolean, and a \<open>TypeError\<close> for \<open>undefined\<close> and \<open>null\<close>.\<close>

fun objectEntries :: "jsval \<Rightarrow> (string \<times> jsval) list option" where
  "objectEntries JUndefined = None"
| "objectEntries JNull = None"
| "objectEntries (JObj kvs) = Some kvs"
| "objectEntries (JArr xs) = Some (zip (map indexName [0..<length xs]) xs)"
| "objectEntries (JStr s) = Some (zip (map indexName [0..<length s]) (map (\<lambda>c. JStr [c]) s))"
| "objectEntries v = Some []"

definition objectValues :: "jsval \<Rightarrow> jsval list option" where
  "objectValues v = map_option (map snd) (objectEntries v)"

text \<open>The values that \<open>for (const x of v)\<close> visits: the elements of an array, the
  characters of a string; every other value is not iterable (\<open>TypeError\<close>).\<close>

fun iterate :: "jsval \<Rightarrow> jsval list option" where
  "iterate (JArr xs) = Some xs"
| "iterate (JStr s) = Some (map (\<lambda>c. JStr [c]) s)"
| "iterate v = None"

text \<open>\<open>new Map(entries)\<close>.\<close>

definition mapFromEntries :: "('k \<times> 'v) list \<Rightarrow> ('k \<times> 'v) list" where
  "mapFromEntries es = foldl (\<lambda>m e. mapSet m (fst e) (snd e)) [] es"

section \<open>Regular expressions\<close>

text \<open>
  The constructs of the regular expressions in the parsers, and their backtracking
  semantics: \<open>rmatch r (s, caps)\<close> lists, in the order in which a backtracking matcher
  tries them, the ways in which \<open>r\<close> matches a prefix of \<open>s\<close>, each as the rest of the
  input with the capture groups set so far. Quantifiers are greedy; an iteration of
  \<open>*\<close> or \<open>+\<close> that consumes nothing is not repeated.
\<close>

datatype regex =
    Chars "char \<Rightarrow> bool"
  | Eps
  | Eos
  | Seq regex regex
  | Alt regex regex
  | Opt regex
  | Star regex
  | Plus regex
  | Group nat regex

type_synonym captures = "nat \<rightharpoonup> string"

type_synonym mstate = "string \<times> captures"

function star :: "(mstate \<Rightarrow> mstate list) \<Rightarrow> mstate \<Rightarrow> mstate list" where
  "star f st =
     concat (map (star f) (filter (\<lambda>st'. length (fst st') < length (fst st)) (f st))) @ [st]"
  by pat_completeness auto
termination
  by (relation "measure (\<lambda>(f, st). length (fst st))") auto

declare star.simps [simp del]

primrec rmatch :: "regex \<Rightarrow> mstate \<Rightarrow> mstate list" where
  "rmatch (Chars P) st =
     (case fst st of [] \<Rightarrow> [] | x # xs \<Rightarrow> if P x then [(xs, snd st)] else [])"
| "rmatch Eps st = [st]"
| "rmatch Eos st = (if fst st = [] then [st] else [])"
| "rmatch (Seq r1 r2) st = concat (map (rmatch r2) (rmatch r1 st))"
| "rmatch (Alt r1 r2) st = rmatch r1 st @ rmatch r2 st"
| "rmatch (Opt r) st = rmatch r st @ [st]"
| "rmatch (Star r) st = star (rmatch r) st"
| "rmatch (Plus r) st = concat (map (star (rmatch r)) (rmatch r st))"
| "rmatch (Group n r) st =
     map (\<lambda>st'. (fst st', (snd st')(n \<mapsto> take (length (fst st) - length (fst st')) (fst st))))
       (rmatch r st)"

text \<open>\<open>s.match(r)\<close> for a pattern that begins with \<open>^\<close>: the first way to match at the
  start of the input, or \<open>null\<close>.\<close>

definition matchStart :: "regex \<Rightarrow> string \<Rightarrow> captures option" where
  "matchStart r s = (case rmatch r (s, Map.empty) of [] \<Rightarrow> None | st # _ \<Rightarrow> Some (snd st))"

text \<open>\<open>s.replace(r, '')\<close> for a pattern without \<open>^\<close> and without the \<open>g\<close> flag: the
  leftmost match is removed.\<close>

fun removeFirst :: "regex \<Rightarrow> string \<Rightarrow> string" where
  "removeFirst r [] = (case rmatch r ([], Map.empty) of [] \<Rightarrow> [] | st # _ \<Rightarrow> fst st)"
| "removeFirst r (c # cs) =
     (case rmatch r (c # cs, Map.empty) of [] \<Rightarrow> c # removeFirst r cs | st # _ \<Rightarrow> fst st)"

text \<open>\<open>s.match(r)\<close> for a pattern without \<open>^\<close> and without the \<open>g\<close> flag: the
  first way to match at the leftmost position that has one.\<close>

fun matchAnywhere :: "regex \<Rightarrow> string \<Rightarrow> captures option" where
  "matchAnywhere r [] = matchStart r []"
| "matchAnywhere r (c # cs) =
     (case matchStart r (c # cs) of Some m \<Rightarrow> Some m | None \<Rightarrow> matchAnywhere r cs)"

text \<open>
  The matches that the loop \<open>while ((match = r.exec(s)) !== null)\<close> visits for a pattern
  with the \<open>g\<close> flag: each search starts where the match before it ended. The
  patterns used with it match no empty string; for an empty match the loop of the source
  would not advance, and the model ends the list there.
\<close>

function allMatches :: "regex \<Rightarrow> string \<Rightarrow> captures list" where
  "allMatches r s =
     (case rmatch r (s, Map.empty) of
        st # _ \<Rightarrow>
          if length (fst st) < length s then snd st # allMatches r (fst st) else [snd st]
      | [] \<Rightarrow> (case s of [] \<Rightarrow> [] | c # cs \<Rightarrow> allMatches r cs))"
  by pat_completeness auto
termination
  by (relation "measure (\<lambda>(r, s). length s)") auto

declare allMatches.simps [simp del]

definition Lit :: "char \<Rightarrow> regex" where
  "Lit c = Chars (\<lambda>x. x = c)"

text \<open>A sequence of literal characters.\<close>

definition Str :: "string \<Rightarrow> regex" where
  "Str s = foldr (\<lambda>c r. Seq (Lit c) r) s Eps"

text \<open>The class \<open>[a-zA-Z0-9_-]\<close>.\<close>

definition isNameChar :: "char \<Rightarrow> bool" where
  "isNameChar c =
     (c \<in> set ''abcdefghijklmnopqrstuvwxyzABCDEFGHIJKLMNOPQRSTUVWXYZ0123456789_-'')"

text \<open>The class \<open>[=<>!~]\<close>.\<close>

definition isSpecifierChar :: "char \<Rightarrow> bool" where
  "isSpecifierChar c = (c \<in> set ''=<>!~'')"

text \<open>The dot: any code unit but the line terminators LF and CR.\<close>

definition isDot :: "char \<Rightarrow> bool" where
  "isDot c = (c \<noteq> CHR 0x0A \<and> c \<noteq> CHR 0x0D)"

text \<open>The classes \<open>\d\<close> and \<open>\w\<close>.\<close>

definition isDigit :: "char \<Rightarrow> bool" where
  "isDigit c = (c \<in> set ''0123456789'')"

definition isWordChar :: "char \<Rightarrow> bool" where
  "isWordChar c =
     (c \<in> set ''abcdefghijklmnopqrstuvwxyzABCDEFGHIJKLMNOPQRSTUVWXYZ0123456789_'')"

section \<open>Parsers\<close>

text \<open>\<open>ParsedDependencies\<close> of types.ts. The keys and values of the map are what
  the parser stores, which for a structured document need not be strings; the type of
  the keys is \<^typ>\<open>string\<close> for the parsers that can only store strings as keys.\<close>

record 'k ParsedDependencies =
  dependencies :: "('k \<times> jsval) list"
  dependencyType' :: DependencyType

text \<open>
  A structured-text loader of a library (\<open>JSON.parse\<close>, \<open>toml.parse\<close>) is a parameter
  of the parser that calls it: it returns the document, or throws (\<open>None\<close>). In the
  parser bodies below \<open>None\<close> is a thrown exception as well; each parser catches it
  and returns the empty list.
\<close>

type_synonym loader = "string \<Rightarrow> jsval option"

subsection \<open>Depth guards\<close>

definition isOpenBracket :: "char \<Rightarrow> bool" where
  "isOpenBracket c = (c = CHR ''{'' \<or> c = CHR ''['')"

definition isCloseBracket :: "char \<Rightarrow> bool" where
  "isCloseBracket c = (c = CHR ''}'' \<or> c = CHR '']'')"

text \<open>The loop of \<open>checkNestingDepth\<close> in python.ts, from the current depth on.\<close>

fun nestingLoop :: "int \<Rightarrow> int \<Rightarrow> string \<Rightarrow> bool" where
  "nestingLoop depth maxDepth [] = True"
| "nestingLoop depth maxDepth (c # cs) =
     (if isOpenBracket c then
        (if depth + 1 > maxDepth then False else nestingLoop (depth + 1) maxDepth cs)
      else if isCloseBracket c then nestingLoop (depth - 1) maxDepth cs
      else nestingLoop depth maxDepth cs)"

definition checkNestingDepth :: "string \<Rightarrow> int \<Rightarrow> bool" where
  "checkNestingDepth content maxDepth = nestingLoop 0 maxDepth content"

text \<open>The loop of \<open>checkJsonDepth\<close> in node.ts, with its three variables.\<close>

fun jsonDepthLoop :: "int \<Rightarrow> bool \<Rightarrow> bool \<Rightarrow> int \<Rightarrow> string \<Rightarrow> bool" where
  "jsonDepthLoop depth inString escape maxDepth [] = True"
| "jsonDepthLoop depth inString escape maxDepth (c # cs) =
     (if escape then jsonDepthLoop depth inString False maxDepth cs
      else if c = CHR 0x5C \<and> inString then jsonDepthLoop depth inString True maxDepth cs
      else if c = CHR 0x22 then jsonDepthLoop depth (\<not> inString) escape maxDepth cs
      else if inString then jsonDepthLoop depth inString escape maxDepth cs
      else if isOpenBracket c then
        (if depth + 1 > maxDepth then False
         else jsonDepthLoop (depth + 1) inString escape maxDepth cs)
      else if isCloseBracket c then
        (if depth - 1 < 0 then False
         else jsonDepthLoop (depth - 1) inString escape maxDepth cs)
      else jsonDepthLoop depth inString escape maxDepth cs)"

definition checkJsonDepth :: "string \<Rightarrow> int \<Rightarrow> bool" where
  "checkJsonDepth content maxDepth = jsonDepthLoop 0 False False maxDepth content"

definition MAX_NESTING_DEPTH :: int where
  "MAX_NESTING_DEPTH = 20"

definition MAX_JSON_DEPTH :: int where
  "MAX_JSON_DEPTH = 20"

definition MAX_DEPENDENCIES :: nat where
  "MAX_DEPENDENCIES = 5000"

text \<open>\<open>safeTomlParse\<close> of python.ts: \<open>null\<close> when the guard fails, else what
  \<open>toml.parse\<close> does.\<close>

definition safeTomlParse :: "loader \<Rightarrow> string \<Rightarrow> jsval option" where
  "safeTomlParse toml_parse content =
     (if \<not> checkNestingDepth content MAX_NESTING_DEPTH then Some JNull
      else toml_parse content)"

subsection \<open>node.ts: package.json\<close>

text \<open>One of the four sections:
  \<open>if (section && Object.keys(section).length > 0) results.push({dependencies: new
  Map(Object.entries(section)), dependencyType})\<close>.\<close>

definition packageJsonSection :: "jsval \<Rightarrow> DependencyType \<Rightarrow> string ParsedDependencies list option" where
  "packageJsonSection section dt =
     (if \<not> truthy section then Some []
      else case objectEntries section of
             None \<Rightarrow> None
           | Some es \<Rightarrow>
               Some (if length es > 0
                     then [\<lparr>dependencies = mapFromEntries es, dependencyType' = dt\<rparr>]
                     else []))"

definition packageJsonBody :: "jsval \<Rightarrow> string ParsedDependencies list option" where
  "packageJsonBody pkg =
     (case getProp pkg ''dependencies'' of None \<Rightarrow> None | Some deps \<Rightarrow>
      case packageJsonSection deps Production of None \<Rightarrow> None | Some r1 \<Rightarrow>
      case getProp pkg ''devDependencies'' of None \<Rightarrow> None | Some devDeps \<Rightarrow>
      case packageJsonSection devDeps Development of None \<Rightarrow> None | Some r2 \<Rightarrow>
      case getProp pkg ''optionalDependencies'' of None \<Rightarrow> None | Some optDeps \<Rightarrow>
      case packageJsonSection optDeps Optional of None \<Rightarrow> None | Some r3 \<Rightarrow>
      case getProp pkg ''peerDependencies'' of None \<Rightarrow> None | Some peerDeps \<Rightarrow>
      case packageJsonSection peerDeps Peer of None \<Rightarrow> None | Some r4 \<Rightarrow>
        Some (r1 @ r2 @ r3 @ r4))"

definition parsePackageJson :: "loader \<Rightarrow> string \<Rightarrow> string ParsedDependencies list" where
  "parsePackageJson JSON_parse content =
     (if \<not> checkJsonDepth content MAX_JSON_DEPTH then []
      else case JSON_parse content of
             None \<Rightarrow> []
           | Some pkg \<Rightarrow> (case packageJsonBody pkg of None \<Rightarrow> [] | Some results \<Rightarrow> results))"

subsection \<open>python.ts: requirements.txt\<close>

text \<open>\<open>/\[.*\]/\<close>\<close>

definition extrasRe :: regex where
  "extrasRe = Seq (Lit CHR ''['') (Seq (Star (Chars isDot)) (Lit CHR '']''))"

text \<open>\<open>/^([a-zA-Z0-9_-]+(?:\[[^\]]+\])?)\s*([=<>!~]+)\s*([^\s;#]+)/\<close>\<close>

definition requirementRe :: regex where
  "requirementRe =
     Seq (Group 1 (Seq (Plus (Chars isNameChar))
                       (Opt (Seq (Lit CHR ''['')
                            (Seq (Plus (Chars (\<lambda>c. c \<noteq> CHR '']''))) (Lit CHR '']''))))))
    (Seq (Star (Chars isWhiteSpace))
    (Seq (Group 2 (Plus (Chars isSpecifierChar)))
    (Seq (Star (Chars isWhiteSpace))
         (Group 3 (Plus (Chars (\<lambda>c. \<not> isWhiteSpace c \<and> c \<noteq> CHR '';'' \<and> c \<noteq> CHR ''#'')))))))"

text \<open>\<open>/^([a-zA-Z0-9_-]+)/\<close>\<close>

definition nameRe :: regex where
  "nameRe = Group 1 (Plus (Chars isNameChar))"

text \<open>A capture group as a value: the text, or \<open>undefined\<close> for a group that took no
  part in the match.\<close>

definition captured :: "string option \<Rightarrow> jsval" where
  "captured g = (case g of None \<Rightarrow> JUndefined | Some s \<Rightarrow> JStr s)"

text \<open>The body of the loop over the lines, on the map \<open>deps\<close>. Calling \<open>replace\<close> or
  \<open>toLowerCase\<close> on a group that is \<open>undefined\<close> would throw.\<close>

definition requirementLine ::
  "(string \<times> jsval) list \<Rightarrow> string \<Rightarrow> (string \<times> jsval) list option" where
  "requirementLine deps line =
     (let trimmed = trim line in
      if trimmed = [] \<or> startsWith trimmed ''#'' \<or> startsWith trimmed ''-'' then Some deps
      else if includes_str trimmed ''://'' \<or> startsWith trimmed ''.'' \<or> startsWith trimmed ''/''
      then Some deps
      else case matchStart requirementRe trimmed of
             Some m \<Rightarrow>
               (case m 1 of
                  None \<Rightarrow> None
                | Some g1 \<Rightarrow>
                    Some (mapSet deps (toLowerCase (removeFirst extrasRe g1)) (captured (m 3))))
           | None \<Rightarrow>
               (case matchStart nameRe trimmed of
                  Some nameMatch \<Rightarrow>
                    (case nameMatch 1 of
                       None \<Rightarrow> None
                     | Some g1 \<Rightarrow> Some (mapSet deps (toLowerCase g1) (JStr ''*'')))
                | None \<Rightarrow> Some deps))"

fun requirementLines ::
  "(string \<times> jsval) list \<Rightarrow> string list \<Rightarrow> (string \<times> jsval) list option" where
  "requirementLines deps [] = Some deps"
| "requirementLines deps (line # lines) =
     (case requirementLine deps line of
        None \<Rightarrow> None
      | Some deps' \<Rightarrow> requirementLines deps' lines)"

definition parseRequirementsTxt :: "string \<Rightarrow> string ParsedDependencies list" where
  "parseRequirementsTxt content =
     (case requirementLines [] (split CHR 0x0A content) of
        None \<Rightarrow> []
      | Some deps \<Rightarrow>
          if length deps = 0 then []
          else [\<lparr>dependencies = deps, dependencyType' = Production\<rparr>])"

subsection \<open>python.ts: pyproject.toml\<close>

text \<open>\<open>/^([a-zA-Z0-9_-]+)(?:\[.*\])?\s*([=<>!~]+)?\s*(.+)?$/\<close>\<close>

definition pep621Re :: regex where
  "pep621Re =
     Seq (Group 1 (Plus (Chars isNameChar)))
    (Seq (Opt extrasRe)
    (Seq (Star (Chars isWhiteSpace))
    (Seq (Opt (Group 2 (Plus (Chars isSpecifierChar))))
    (Seq (Star (Chars isWhiteSpace))
    (Seq (Opt (Group 3 (Plus (Chars isDot))))
         Eos)))))"

text \<open>\<open>x || '*'\<close>\<close>

definition orStar :: "jsval \<Rightarrow> jsval" where
  "orStar x = (if truthy x then x else JStr ''*'')"

text \<open>
  The loop over the requirement strings of a PEP 621 list, on \<open>deps\<close> and the counter
  \<open>totalDeps\<close>: it breaks when the counter has reached \<open>MAX_DEPENDENCIES\<close>, and
  \<open>dep.match\<close> throws for a \<open>dep\<close> that is not a string.
\<close>

fun pep621Loop ::
  "(string \<times> jsval) list \<times> nat \<Rightarrow> jsval list \<Rightarrow> ((string \<times> jsval) list \<times> nat) option" where
  "pep621Loop (deps, totalDeps) [] = Some (deps, totalDeps)"
| "pep621Loop (deps, totalDeps) (dep # rest) =
     (if totalDeps \<ge> MAX_DEPENDENCIES then Some (deps, totalDeps)
      else case dep of
             JStr s \<Rightarrow>
               (case matchStart pep621Re s of
                  Some m \<Rightarrow>
                    (case m 1 of
                       None \<Rightarrow> None
                     | Some g1 \<Rightarrow>
                         pep621Loop
                           (mapSet deps (toLowerCase g1) (orStar (captured (m 3))), totalDeps + 1)
                           rest)
                | None \<Rightarrow> pep621Loop (deps, totalDeps) rest)
           | _ \<Rightarrow> None)"

text \<open>The loop over the groups of \<open>optional-dependencies\<close>; the inner loop is the one
  above, and its \<open>break\<close> leaves the inner loop only.\<close>

fun optionalGroupsLoop ::
  "(string \<times> jsval) list \<times> nat \<Rightarrow> jsval list \<Rightarrow> ((string \<times> jsval) list \<times> nat) option" where
  "optionalGroupsLoop acc [] = Some acc"
| "optionalGroupsLoop acc (g # groups) =
     (case iterate g of
        None \<Rightarrow> None
      | Some ds \<Rightarrow>
          (case pep621Loop acc ds of
             None \<Rightarrow> None
           | Some acc' \<Rightarrow> optionalGroupsLoop acc' groups))"

text \<open>\<open>typeof value === 'string' ? value : value.version || '*'\<close>\<close>

definition entryVersion :: "jsval \<Rightarrow> jsval option" where
  "entryVersion v =
     (case v of
        JStr s \<Rightarrow> Some v
      | _ \<Rightarrow> map_option orStar (getProp v ''version''))"

text \<open>The loop \<open>for (const [name, value] of Object.entries(...))\<close> with the body
  \<open>deps.set(name.toLowerCase(), version)\<close>, as it stands for the Poetry
  \<open>dev-dependencies\<close>, the Poetry groups and both sections of a Pipfile.\<close>

fun lowercasedEntries ::
  "(string \<times> jsval) list \<Rightarrow> (string \<times> jsval) list \<Rightarrow> (string \<times> jsval) list option" where
  "lowercasedEntries deps [] = Some deps"
| "lowercasedEntries deps ((nm, v) # es) =
     (case entryVersion v of
        None \<Rightarrow> None
      | Some version \<Rightarrow> lowercasedEntries (mapSet deps (toLowerCase nm) version) es)"

text \<open>The same loop for the Poetry \<open>dependencies\<close>, which skips the entry
  \<open>python\<close>.\<close>

fun poetryEntries ::
  "(string \<times> jsval) list \<Rightarrow> (string \<times> jsval) list \<Rightarrow> (string \<times> jsval) list option" where
  "poetryEntries deps [] = Some deps"
| "poetryEntries deps ((nm, v) # es) =
     (if toLowerCase nm = ''python'' then poetryEntries deps es
      else case entryVersion v of
             None \<Rightarrow> None
           | Some version \<Rightarrow> poetryEntries (mapSet deps (toLowerCase nm) version) es)"

text \<open>\<open>if (deps.size > 0) results.push({dependencies: deps, dependencyType})\<close>\<close>

definition pushIfAny :: "('k \<times> jsval) list \<Rightarrow> DependencyType \<Rightarrow> 'k ParsedDependencies list" where
  "pushIfAny deps dt =
     (if length deps > 0 then [\<lparr>dependencies = deps, dependencyType' = dt\<rparr>] else [])"

text \<open>A section that is read with \<open>Object.entries\<close> when it is truthy.\<close>

definition lowercasedSection :: "jsval \<Rightarrow> DependencyType \<Rightarrow> string ParsedDependencies list option" where
  "lowercasedSection section dt =
     (if \<not> truthy section then Some []
      else case objectEntries section of
             None \<Rightarrow> None
           | Some es \<Rightarrow>
               (case lowercasedEntries [] es of
                  None \<Rightarrow> None
                | Some deps \<Rightarrow> Some (pushIfAny deps dt)))"

definition poetrySection :: "jsval \<Rightarrow> string ParsedDependencies list option" where
  "poetrySection section =
     (if \<not> truthy section then Some []
      else case objectEntries section of
             None \<Rightarrow> None
           | Some es \<Rightarrow>
               (case poetryEntries [] es of
                  None \<Rightarrow> None
                | Some deps \<Rightarrow> Some (pushIfAny deps Production)))"

text \<open>The loop over the entries of \<open>poetry.group\<close>.\<close>

fun poetryGroups :: "(string \<times> jsval) list \<Rightarrow> string ParsedDependencies list option" where
  "poetryGroups [] = Some []"
| "poetryGroups ((groupName, g) # gs) =
     (case getProp g ''dependencies'' of
        None \<Rightarrow> None
      | Some gdeps \<Rightarrow>
          (case lowercasedSection gdeps
                  (if groupName \<in> set [''dev'', ''test'', ''lint'', ''typing'']
                   then Development else Production) of
             None \<Rightarrow> None
           | Some r \<Rightarrow> (case poetryGroups gs of None \<Rightarrow> None | Some rs \<Rightarrow> Some (r @ rs))))"

text \<open>The body of the \<open>try\<close> block after the document has been loaded; the counter
  \<open>totalDeps\<close> runs through the two PEP 621 sections.\<close>

definition pyprojectBody :: "jsval \<Rightarrow> string ParsedDependencies list option" where
  "pyprojectBody pyproject =
     (case getProp pyproject ''project'' of None \<Rightarrow> None | Some project \<Rightarrow>
      case (let ds = optChain project ''dependencies'' in
              if truthy ds
              then (case iterate ds of
                      None \<Rightarrow> None
                    | Some xs \<Rightarrow>
                        (case pep621Loop ([], 0) xs of
                           None \<Rightarrow> None
                         | Some (deps, n) \<Rightarrow> Some (pushIfAny deps Production, n)))
              else Some ([], 0)) of None \<Rightarrow> None | Some (r1, totalDeps1) \<Rightarrow>
      case (let od = optChain project ''optional-dependencies'' in
              if truthy od
              then (case objectValues od of
                      None \<Rightarrow> None
                    | Some groups \<Rightarrow>
                        (case optionalGroupsLoop ([], totalDeps1) groups of
                           None \<Rightarrow> None
                         | Some (devDeps, n) \<Rightarrow> Some (pushIfAny devDeps Development)))
              else Some []) of None \<Rightarrow> None | Some r2 \<Rightarrow>
      case getProp pyproject ''tool'' of None \<Rightarrow> None | Some tool \<Rightarrow>
      (let poetry = optChain tool ''poetry'' in
       if truthy poetry
       then
         (case getProp poetry ''dependencies'' of None \<Rightarrow> None | Some pd \<Rightarrow>
          case poetrySection pd of None \<Rightarrow> None | Some r3 \<Rightarrow>
          case getProp poetry ''dev-dependencies'' of None \<Rightarrow> None | Some dd \<Rightarrow>
          case lowercasedSection dd Development of None \<Rightarrow> None | Some r4 \<Rightarrow>
          case getProp poetry ''group'' of None \<Rightarrow> None | Some grp \<Rightarrow>
          case (if truthy grp
                then (case objectEntries grp of None \<Rightarrow> None | Some gs \<Rightarrow> poetryGroups gs)
                else Some []) of None \<Rightarrow> None | Some r5 \<Rightarrow>
            Some (r1 @ r2 @ r3 @ r4 @ r5))
       else Some (r1 @ r2)))"

definition parsePyprojectToml :: "loader \<Rightarrow> string \<Rightarrow> string ParsedDependencies list" where
  "parsePyprojectToml toml_parse content =
     (case safeTomlParse toml_parse content of
        None \<Rightarrow> []
      | Some pyproject \<Rightarrow>
          if \<not> truthy pyproject then []
          else (case pyprojectBody pyproject of None \<Rightarrow> [] | Some results \<Rightarrow> results))"

subsection \<open>python.ts: Pipfile\<close>

definition pipfileBody :: "jsval \<Rightarrow> string ParsedDependencies list option" where
  "pipfileBody pipfile =
     (case getProp pipfile ''packages'' of None \<Rightarrow> None | Some packages \<Rightarrow>
      case lowercasedSection packages Production of None \<Rightarrow> None | Some r1 \<Rightarrow>
      case getProp pipfile ''dev-packages'' of None \<Rightarrow> None | Some devPackages \<Rightarrow>
      case lowercasedSection devPackages Development of None \<Rightarrow> None | Some r2 \<Rightarrow>
        Some (r1 @ r2))"

definition parsePipfile :: "loader \<Rightarrow> string \<Rightarrow> string ParsedDependencies list" where
  "parsePipfile toml_parse content =
     (case safeTomlParse toml_parse content of
        None \<Rightarrow> []
      | Some pipfile \<Rightarrow>
          if \<not> truthy pipfile then []
          else (case pipfileBody pipfile of None \<Rightarrow> [] | Some results \<Rightarrow> results))"

subsection \<open>python.ts: poetry.lock\<close>

text \<open>The loop over \<open>lock.package\<close>, on the two maps. \<open>pkg.name.toLowerCase()\<close>
  throws unless \<open>pkg.name\<close> is a string.\<close>

fun lockPackages ::
  "(string \<times> jsval) list \<times> (string \<times> jsval) list \<Rightarrow> jsval list
     \<Rightarrow> ((string \<times> jsval) list \<times> (string \<times> jsval) list) option" where
  "lockPackages (prodDeps, devDeps) [] = Some (prodDeps, devDeps)"
| "lockPackages (prodDeps, devDeps) (pkg # pkgs) =
     (case getProp pkg ''category'' of None \<Rightarrow> None | Some category \<Rightarrow>
      case getProp pkg ''name'' of None \<Rightarrow> None | Some nm \<Rightarrow>
      case getProp pkg ''version'' of None \<Rightarrow> None | Some version \<Rightarrow>
        (case nm of
           JStr s \<Rightarrow>
             if category = JStr ''dev''
             then lockPackages (prodDeps, mapSet devDeps (toLowerCase s) version) pkgs
             else lockPackages (mapSet prodDeps (toLowerCase s) version, devDeps) pkgs
         | _ \<Rightarrow> None))"

definition poetryLockBody :: "jsval \<Rightarrow> string ParsedDependencies list option" where
  "poetryLockBody lock =
     (case getProp lock ''package'' of None \<Rightarrow> None | Some package \<Rightarrow>
      case (if truthy package
            then (case iterate package of None \<Rightarrow> None | Some pkgs \<Rightarrow> lockPackages ([], []) pkgs)
            else Some ([], [])) of None \<Rightarrow> None | Some (prodDeps, devDeps) \<Rightarrow>
        Some (pushIfAny prodDeps Production @ pushIfAny devDeps Development))"

definition parsePoetryLock :: "loader \<Rightarrow> string \<Rightarrow> string ParsedDependencies list" where
  "parsePoetryLock toml_parse content =
     (case safeTomlParse toml_parse content of
        None \<Rightarrow> []
      | Some lock \<Rightarrow>
          if \<not> truthy lock then []
          else (case poetryLockBody lock of None \<Rightarrow> [] | Some results \<Rightarrow> results))"

subsection \<open>More of JavaScript for the remaining parsers\<close>

text \<open>
  The key comparison of a \<open>Map\<close> (SameValueZero): primitive values are compared by
  value, and an array or an object is the same key only as the same object, which two
  values of a parsed document never are.
\<close>

fun sameValueZero :: "jsval \<Rightarrow> jsval \<Rightarrow> bool" where
  "sameValueZero (JArr xs) b = False"
| "sameValueZero (JObj kvs) b = False"
| "sameValueZero a b = (a = b)"

text \<open>\<open>Map.prototype.set\<close> and \<open>Map.prototype.has\<close> for keys that are values.\<close>

fun mapSetJs :: "(jsval \<times> 'v) list \<Rightarrow> jsval \<Rightarrow> 'v \<Rightarrow> (jsval \<times> 'v) list" where
  "mapSetJs [] k v = [(k, v)]"
| "mapSetJs ((k', v') # m) k v =
     (if sameValueZero k' k then (k', v) # m else (k', v') # mapSetJs m k v)"

definition mapHasJs :: "(jsval \<times> 'v) list \<Rightarrow> jsval \<Rightarrow> bool" where
  "mapHasJs m k = list_ex (\<lambda>e. sameValueZero (fst e) k) m"

text \<open>\<open>v?.[0]\<close>: the first element of an array, the first character of a string, the
  property \<open>0\<close> of an object.\<close>

fun firstOf :: "jsval \<Rightarrow> jsval" where
  "firstOf (JArr xs) = (case xs of [] \<Rightarrow> JUndefined | x # _ \<Rightarrow> x)"
| "firstOf (JStr s) = (case s of [] \<Rightarrow> JUndefined | c # _ \<Rightarrow> JStr [c])"
| "firstOf (JObj kvs) = (case map_of kvs ''0'' of Some v \<Rightarrow> v | None \<Rightarrow> JUndefined)"
| "firstOf v = JUndefined"

text \<open>\<open>v || []\<close>\<close>

definition orEmptyArray :: "jsval \<Rightarrow> jsval" where
  "orEmptyArray v = (if truthy v then v else JArr [])"

text \<open>
  The string that a template literal prints for a value. For a string it is the string;
  for any other value it is the conversion of the runtime, which for the objects of a
  parsed document depends on how the library creates them and can throw: the parameter
  \<open>textOf\<close>.
\<close>

definition templateText :: "(jsval \<Rightarrow> string option) \<Rightarrow> jsval \<Rightarrow> string option" where
  "templateText textOf v = (case v of JStr s \<Rightarrow> Some s | _ \<Rightarrow> textOf v)"

text \<open>\<open>s.replace(/^p/, '')\<close> for a literal \<open>p\<close>.\<close>

definition removePrefix :: "string \<Rightarrow> string \<Rightarrow> string" where
  "removePrefix p s = (if startsWith s p then drop (length p) s else s)"

text \<open>\<open>s.split(sep)\<close> for a separator of one or more characters.\<close>

function splitStr :: "string \<Rightarrow> string \<Rightarrow> string list" where
  "splitStr sep [] = [[]]"
| "splitStr sep (c # cs) =
     (if sep \<noteq> [] \<and> startsWith (c # cs) sep
      then [] # splitStr sep (drop (length sep) (c # cs))
      else case splitStr sep cs of
             [] \<Rightarrow> [[c]]
           | piece # pieces \<Rightarrow> (c # piece) # pieces)"
  by pat_completeness auto
termination
  by (relation "measure (\<lambda>(sep, s). length s)") (auto simp: neq_Nil_conv)

text \<open>\<open>s.indexOf(c, from)\<close> and \<open>s.lastIndexOf(c)\<close> for a character \<open>c\<close>; \<open>-1\<close> when
  there is none.\<close>

definition indexOfFrom :: "char \<Rightarrow> string \<Rightarrow> nat \<Rightarrow> int" where
  "indexOfFrom c s from =
     (case filter (\<lambda>i. from \<le> i \<and> s ! i = c) [0..<length s] of
        [] \<Rightarrow> -1
      | i # _ \<Rightarrow> int i)"

definition lastIndexOf :: "char \<Rightarrow> string \<Rightarrow> int" where
  "lastIndexOf c s =
     (case rev (filter (\<lambda>i. s ! i = c) [0..<length s]) of
        [] \<Rightarrow> -1
      | i # _ \<Rightarrow> int i)"

text \<open>The structured-text loaders of the other libraries are parameters like
  \<open>toml.parse\<close>: \<open>yaml.load\<close>, and \<open>parseString\<close> of xml2js, for which \<open>None\<close> is a
  reported error as well as a thrown one (the callback then leaves \<open>parsed\<close> null).\<close>

subsection \<open>node.ts: package-lock.json\<close>

text \<open>The body of the loop over \<open>lock.packages\<close> (lockfile version 3).\<close>

definition lockV3Entry ::
  "(string \<times> jsval) list \<times> (string \<times> jsval) list \<Rightarrow> string \<times> jsval
     \<Rightarrow> ((string \<times> jsval) list \<times> (string \<times> jsval) list) option" where
  "lockV3Entry acc entry =
     (case (acc, entry) of ((prodDeps, devDeps), (path, info)) \<Rightarrow>
        if path = [] \<or> path = ''node_modules'' then Some acc
        else if \<not> startsWith path ''node_modules/'' then Some acc
        else case rev (splitStr ''node_modules/'' (removePrefix ''node_modules/'' path)) of
               [] \<Rightarrow> Some acc
             | nm # _ \<Rightarrow>
                 if nm = [] then Some acc
                 else case getProp info ''version'' of None \<Rightarrow> None | Some version \<Rightarrow>
                      if \<not> truthy version then Some acc
                      else case getProp info ''dev'' of None \<Rightarrow> None | Some dev \<Rightarrow>
                           if truthy dev then Some (prodDeps, mapSet devDeps nm version)
                           else Some (mapSet prodDeps nm version, devDeps))"

text \<open>The body of the loop over \<open>lock.dependencies\<close> (lockfile version 2).\<close>

definition lockV2Entry ::
  "(string \<times> jsval) list \<times> (string \<times> jsval) list \<Rightarrow> string \<times> jsval
     \<Rightarrow> ((string \<times> jsval) list \<times> (string \<times> jsval) list) option" where
  "lockV2Entry acc entry =
     (case (acc, entry) of ((prodDeps, devDeps), (nm, info)) \<Rightarrow>
        case getProp info ''version'' of None \<Rightarrow> None | Some version \<Rightarrow>
        if \<not> truthy version then Some acc
        else case getProp info ''dev'' of None \<Rightarrow> None | Some dev \<Rightarrow>
             if truthy dev then Some (prodDeps, mapSet devDeps nm version)
             else Some (mapSet prodDeps nm version, devDeps))"

text \<open>A loop whose body can throw: the first exception ends it.\<close>

fun forEach :: "('s \<Rightarrow> 'a \<Rightarrow> 's option) \<Rightarrow> 's \<Rightarrow> 'a list \<Rightarrow> 's option" where
  "forEach body s [] = Some s"
| "forEach body s (x # xs) =
     (case body s x of None \<Rightarrow> None | Some s' \<Rightarrow> forEach body s' xs)"

text \<open>The two groups that the lock-file parsers return.\<close>

definition prodAndDev ::
  "('k \<times> jsval) list \<times> ('k \<times> jsval) list \<Rightarrow> 'k ParsedDependencies list" where
  "prodAndDev acc = pushIfAny (fst acc) Production @ pushIfAny (snd acc) Development"

definition packageLockBody :: "jsval \<Rightarrow> string ParsedDependencies list option" where
  "packageLockBody lock =
     (case getProp lock ''packages'' of None \<Rightarrow> None | Some packages \<Rightarrow>
      if truthy packages then
        (case objectEntries packages of None \<Rightarrow> None | Some es \<Rightarrow>
         map_option prodAndDev (forEach lockV3Entry ([], []) es))
      else
        (case getProp lock ''dependencies'' of None \<Rightarrow> None | Some deps \<Rightarrow>
         if truthy deps then
           (case objectEntries deps of None \<Rightarrow> None | Some es \<Rightarrow>
            map_option prodAndDev (forEach lockV2Entry ([], []) es))
         else Some (prodAndDev ([], []))))"

definition parsePackageLockJson :: "loader \<Rightarrow> string \<Rightarrow> string ParsedDependencies list" where
  "parsePackageLockJson JSON_parse content =
     (case JSON_parse content of
        None \<Rightarrow> []
      | Some lock \<Rightarrow> (case packageLockBody lock of None \<Rightarrow> [] | Some results \<Rightarrow> results))"

subsection \<open>node.ts: yarn.lock\<close>

text \<open>\<open>/version\s+"?([^"\s]+)"?/\<close>\<close>

definition yarnVersionRe :: regex where
  "yarnVersionRe =
     Seq (Str ''version'')
    (Seq (Plus (Chars isWhiteSpace))
    (Seq (Opt (Lit CHR 0x22))
    (Seq (Group 1 (Plus (Chars (\<lambda>c. c \<noteq> CHR 0x22 \<and> \<not> isWhiteSpace c))))
         (Opt (Lit CHR 0x22)))))"

text \<open>The first \<open>if\<close> of the loop body: the value of \<open>currentPackage\<close> after it
  (\<open>None\<close> is \<open>null\<close>). \<open>line.replace(/["':]/g, '')\<close> removes every such character.\<close>

definition yarnHeader :: "string \<Rightarrow> string option \<Rightarrow> string option" where
  "yarnHeader line currentPackage =
     (if line \<noteq> [] \<and> \<not> startsWith line '' '' \<and> \<not> startsWith line ''#'' \<and> includes_str line ''@''
      then
        (let cleanLine = trim (filter (\<lambda>c. c \<noteq> CHR 0x22 \<and> c \<noteq> CHR 0x27 \<and> c \<noteq> CHR '':'') line);
             lastAtIndex = lastIndexOf CHR ''@'' cleanLine
         in if lastAtIndex > 0 then
              (if startsWith cleanLine ''@'' then
                 (let secondAtIndex = indexOfFrom CHR ''@'' cleanLine 1
                  in if secondAtIndex > 0 then Some (take (nat secondAtIndex) cleanLine)
                     else Some (take (nat lastAtIndex) cleanLine))
               else Some (take (nat lastAtIndex) cleanLine))
            else currentPackage)
      else currentPackage)"

definition yarnLine ::
  "(jsval \<times> jsval) list \<times> string option \<Rightarrow> string \<Rightarrow> (jsval \<times> jsval) list \<times> string option" where
  "yarnLine st line =
     (case st of (deps, currentPackage) \<Rightarrow>
        (let current = yarnHeader line currentPackage in
         case current of
           None \<Rightarrow> (deps, current)
         | Some pkg \<Rightarrow>
             if pkg \<noteq> [] \<and> startsWith (trim line) ''version'' then
               (case matchAnywhere yarnVersionRe line of
                  None \<Rightarrow> (deps, current)
                | Some versionMatch \<Rightarrow>
                    ((if \<not> mapHasJs deps (JStr pkg)
                      then mapSetJs deps (JStr pkg) (captured (versionMatch 1))
                      else deps), None))
             else (deps, current)))"

definition parseYarnLock :: "string \<Rightarrow> jsval ParsedDependencies list" where
  "parseYarnLock content =
     (let deps = fst (foldl yarnLine ([], None) (split CHR 0x0A content))
      in if length deps = 0 then []
         else [\<lparr>dependencies = deps, dependencyType' = Production\<rparr>])"

subsection \<open>node.ts: pnpm-lock.yaml\<close>

text \<open>\<open>/\(.+\)$/\<close>\<close>

definition peerInfoRe :: regex where
  "peerInfoRe = Seq (Lit CHR ''('') (Seq (Plus (Chars isDot)) (Seq (Lit CHR '')'') Eos))"

text \<open>\<open>/\/?(@?[^@]+)@(.+)/\<close>\<close>

definition pnpmPathRe :: regex where
  "pnpmPathRe =
     Seq (Opt (Lit CHR ''/''))
    (Seq (Group 1 (Seq (Opt (Lit CHR ''@'')) (Plus (Chars (\<lambda>c. c \<noteq> CHR ''@'')))))
    (Seq (Lit CHR ''@'')
         (Group 2 (Plus (Chars isDot)))))"

text \<open>The body of the loops over the dependencies of an importer.
  \<open>version.startsWith\<close> throws for a truthy \<open>version\<close> that is not a string.\<close>

definition importerEntry ::
  "(string \<times> jsval) list \<Rightarrow> string \<times> jsval \<Rightarrow> (string \<times> jsval) list option" where
  "importerEntry deps entry =
     (case entry of (nm, info) \<Rightarrow>
        case (case info of JStr s \<Rightarrow> Some info | _ \<Rightarrow> getProp info ''version'') of
          None \<Rightarrow> None
        | Some version \<Rightarrow>
            if \<not> truthy version then Some deps
            else (case version of
                    JStr v \<Rightarrow>
                      if \<not> startsWith v ''link:''
                      then Some (mapSet deps nm (JStr (removeFirst peerInfoRe v)))
                      else Some deps
                  | _ \<Rightarrow> None))"

definition importerSection ::
  "(string \<times> jsval) list \<Rightarrow> jsval \<Rightarrow> (string \<times> jsval) list option" where
  "importerSection deps section =
     (if truthy section
      then (case objectEntries section of None \<Rightarrow> None | Some es \<Rightarrow> forEach importerEntry deps es)
      else Some deps)"

definition importerStep ::
  "(string \<times> jsval) list \<times> (string \<times> jsval) list \<Rightarrow> jsval
     \<Rightarrow> ((string \<times> jsval) list \<times> (string \<times> jsval) list) option" where
  "importerStep acc importer =
     (case getProp importer ''dependencies'' of None \<Rightarrow> None | Some ds \<Rightarrow>
      case importerSection (fst acc) ds of None \<Rightarrow> None | Some prodDeps \<Rightarrow>
      case getProp importer ''devDependencies'' of None \<Rightarrow> None | Some dd \<Rightarrow>
      case importerSection (snd acc) dd of None \<Rightarrow> None | Some devDeps \<Rightarrow>
        Some (prodDeps, devDeps))"

text \<open>The body of the fallback loop over \<open>lock.packages\<close>.\<close>

definition pnpmPackage ::
  "(string \<times> jsval) list \<times> (string \<times> jsval) list \<Rightarrow> string \<times> jsval
     \<Rightarrow> ((string \<times> jsval) list \<times> (string \<times> jsval) list) option" where
  "pnpmPackage acc entry =
     (case entry of (path, info) \<Rightarrow>
        case matchAnywhere pnpmPathRe path of
          None \<Rightarrow> Some acc
        | Some m \<Rightarrow>
            (case (m 1, m 2) of
               (Some g1, Some version) \<Rightarrow>
                 if g1 = [] \<or> version = [] then Some acc
                 else
                   (let nm = (if startsWith g1 ''/'' then drop 1 g1 else g1) in
                    if startsWith version ''link:'' then Some acc
                    else case getProp info ''dev'' of None \<Rightarrow> None | Some dev \<Rightarrow>
                         if truthy dev then Some (fst acc, mapSet (snd acc) nm (JStr version))
                         else Some (mapSet (fst acc) nm (JStr version), snd acc))
             | _ \<Rightarrow> Some acc))"

definition pnpmLockBody :: "jsval \<Rightarrow> string ParsedDependencies list option" where
  "pnpmLockBody lock =
     (case getProp lock ''importers'' of None \<Rightarrow> None | Some importers \<Rightarrow>
      case (if truthy importers
            then (case objectValues importers of
                    None \<Rightarrow> None
                  | Some vs \<Rightarrow> forEach importerStep ([], []) vs)
            else Some ([], [])) of None \<Rightarrow> None | Some acc \<Rightarrow>
      case getProp lock ''packages'' of None \<Rightarrow> None | Some packages \<Rightarrow>
      if length (fst acc) = 0 \<and> length (snd acc) = 0 \<and> truthy packages
      then (case objectEntries packages of
              None \<Rightarrow> None
            | Some es \<Rightarrow> map_option prodAndDev (forEach pnpmPackage acc es))
      else Some (prodAndDev acc))"

definition parsePnpmLock :: "loader \<Rightarrow> string \<Rightarrow> string ParsedDependencies list" where
  "parsePnpmLock yaml_load content =
     (case yaml_load content of
        None \<Rightarrow> []
      | Some lock \<Rightarrow> (case pnpmLockBody lock of None \<Rightarrow> [] | Some results \<Rightarrow> results))"

subsection \<open>go.ts\<close>

text \<open>\<open>(\S+)\s+(v[\d.]+[\w.-]*)\<close>, the part that the three patterns share.\<close>

definition goModuleVersion :: regex where
  "goModuleVersion =
     Seq (Group 1 (Plus (Chars (\<lambda>c. \<not> isWhiteSpace c))))
    (Seq (Plus (Chars isWhiteSpace))
         (Group 2 (Seq (Lit CHR ''v'')
                  (Seq (Plus (Chars (\<lambda>c. isDigit c \<or> c = CHR ''.'')))
                       (Star (Chars (\<lambda>c. isWordChar c \<or> c = CHR ''.'' \<or> c = CHR ''-'')))))))"

text \<open>\<open>/^(\S+)\s+(v[\d.]+[\w.-]*)/\<close>\<close>

definition goBlockRe :: regex where
  "goBlockRe = goModuleVersion"

text \<open>\<open>/^require\s+(\S+)\s+(v[\d.]+[\w.-]*)/\<close>\<close>

definition goRequireRe :: regex where
  "goRequireRe = Seq (Str ''require'') (Seq (Plus (Chars isWhiteSpace)) goModuleVersion)"

text \<open>\<open>/^(\S+)\s+(v[\d.]+[\w.-]*)(?:\/go\.mod)?\s+/\<close>\<close>

definition goSumRe :: regex where
  "goSumRe = Seq goModuleVersion (Seq (Opt (Str ''/go.mod'')) (Plus (Chars isWhiteSpace)))"

definition goModLine ::
  "(jsval \<times> jsval) list \<times> bool \<Rightarrow> string \<Rightarrow> (jsval \<times> jsval) list \<times> bool" where
  "goModLine st line =
     (case st of (deps, inRequireBlock) \<Rightarrow>
        (let trimmed = trim line in
         if trimmed = [] \<or> startsWith trimmed ''//'' then (deps, inRequireBlock)
         else if trimmed = ''require ('' then (deps, True)
         else if trimmed = '')'' then (deps, False)
         else case matchStart (if inRequireBlock then goBlockRe else goRequireRe) trimmed of
                None \<Rightarrow> (deps, inRequireBlock)
              | Some requireMatch \<Rightarrow>
                  if \<not> includes_str line ''// indirect''
                  then (mapSetJs deps (captured (requireMatch 1)) (captured (requireMatch 2)),
                        inRequireBlock)
                  else (deps, inRequireBlock)))"

definition parseGoMod :: "string \<Rightarrow> jsval ParsedDependencies list" where
  "parseGoMod content =
     (let deps = fst (foldl goModLine ([], False) (split CHR 0x0A content))
      in if length deps = 0 then []
         else [\<lparr>dependencies = deps, dependencyType' = Production\<rparr>])"

definition goSumLine :: "(jsval \<times> jsval) list \<Rightarrow> string \<Rightarrow> (jsval \<times> jsval) list" where
  "goSumLine deps line =
     (let trimmed = trim line in
      if trimmed = [] then deps
      else case matchStart goSumRe trimmed of
             None \<Rightarrow> deps
           | Some m \<Rightarrow>
               if \<not> mapHasJs deps (captured (m 1))
               then mapSetJs deps (captured (m 1)) (captured (m 2))
               else deps)"

definition parseGoSum :: "string \<Rightarrow> jsval ParsedDependencies list" where
  "parseGoSum content =
     (let deps = foldl goSumLine [] (split CHR 0x0A content)
      in if length deps = 0 then []
         else [\<lparr>dependencies = deps, dependencyType' = Production\<rparr>])"

subsection \<open>ruby.ts\<close>

text \<open>The classes \<open>['"]\<close> and \<open>[^'"]\<close>.\<close>

definition isQuote :: "char \<Rightarrow> bool" where
  "isQuote c = (c = CHR 0x27 \<or> c = CHR 0x22)"

text \<open>\<open>/^group\s+:(?:development|test)/\<close>\<close>

definition gemGroupRe :: regex where
  "gemGroupRe =
     Seq (Str ''group'')
    (Seq (Plus (Chars isWhiteSpace))
    (Seq (Lit CHR '':'')
         (Alt (Str ''development'') (Str ''test''))))"

text \<open>\<open>/^gem\s+['"]([^'"]+)['"]\s*(?:,\s*['"]([^'"]+)['"])?/\<close>\<close>

definition gemRe :: regex where
  "gemRe =
     Seq (Str ''gem'')
    (Seq (Plus (Chars isWhiteSpace))
    (Seq (Chars isQuote)
    (Seq (Group 1 (Plus (Chars (\<lambda>c. \<not> isQuote c))))
    (Seq (Chars isQuote)
    (Seq (Star (Chars isWhiteSpace))
         (Opt (Seq (Lit CHR '','')
              (Seq (Star (Chars isWhiteSpace))
              (Seq (Chars isQuote)
              (Seq (Group 2 (Plus (Chars (\<lambda>c. \<not> isQuote c))))
                   (Chars isQuote)))))))))))"

definition gemfileLine ::
  "(jsval \<times> jsval) list \<times> (jsval \<times> jsval) list \<times> bool \<Rightarrow> string
     \<Rightarrow> (jsval \<times> jsval) list \<times> (jsval \<times> jsval) list \<times> bool" where
  "gemfileLine st line =
     (case st of (deps, devDeps, inDevGroup) \<Rightarrow>
        (let trimmed = trim line in
         if trimmed = [] \<or> startsWith trimmed ''#'' then (deps, devDeps, inDevGroup)
         else if matchStart gemGroupRe trimmed \<noteq> None then (deps, devDeps, True)
         else if trimmed = ''end'' then (deps, devDeps, False)
         else case matchStart gemRe trimmed of
                None \<Rightarrow> (deps, devDeps, inDevGroup)
              | Some gemMatch \<Rightarrow>
                  if inDevGroup
                  then (deps, mapSetJs devDeps (captured (gemMatch 1))
                                (orStar (captured (gemMatch 2))), inDevGroup)
                  else (mapSetJs deps (captured (gemMatch 1))
                          (orStar (captured (gemMatch 2))), devDeps, inDevGroup)))"

definition parseGemfile :: "string \<Rightarrow> jsval ParsedDependencies list" where
  "parseGemfile content =
     (case foldl gemfileLine ([], [], False) (split CHR 0x0A content) of
        (deps, devDeps, inDevGroup) \<Rightarrow> prodAndDev (deps, devDeps))"

text \<open>\<open>/^[A-Z]/\<close>\<close>

definition upperStartRe :: regex where
  "upperStartRe = Chars (\<lambda>c. c \<in> set ''ABCDEFGHIJKLMNOPQRSTUVWXYZ'')"

text \<open>\<open>/^\s{4}([a-zA-Z0-9_-]+)\s+\(([^)]+)\)/\<close>\<close>

definition gemSpecRe :: regex where
  "gemSpecRe =
     Seq (Chars isWhiteSpace) (Seq (Chars isWhiteSpace)
    (Seq (Chars isWhiteSpace) (Seq (Chars isWhiteSpace)
    (Seq (Group 1 (Plus (Chars isNameChar)))
    (Seq (Plus (Chars isWhiteSpace))
    (Seq (Lit CHR ''('')
    (Seq (Group 2 (Plus (Chars (\<lambda>c. c \<noteq> CHR '')''))))
         (Lit CHR '')''))))))))"

definition gemfileLockLine ::
  "(jsval \<times> jsval) list \<times> bool \<Rightarrow> string \<Rightarrow> (jsval \<times> jsval) list \<times> bool" where
  "gemfileLockLine st line =
     (case st of (deps, inSpecs) \<Rightarrow>
        if trim line = ''specs:'' then (deps, True)
        else if inSpecs \<and> matchStart upperStartRe line \<noteq> None then (deps, False)
        else if inSpecs then
          (case matchStart gemSpecRe line of
             None \<Rightarrow> (deps, inSpecs)
           | Some m \<Rightarrow> (mapSetJs deps (captured (m 1)) (captured (m 2)), inSpecs))
        else (deps, inSpecs))"

definition parseGemfileLock :: "string \<Rightarrow> jsval ParsedDependencies list" where
  "parseGemfileLock content =
     (let deps = fst (foldl gemfileLockLine ([], False) (split CHR 0x0A content))
      in if length deps = 0 then []
         else [\<lparr>dependencies = deps, dependencyType' = Production\<rparr>])"

subsection \<open>java.ts: pom.xml\<close>

text \<open>The name \<open>`${groupId}:${artifactId}`\<close>.\<close>

definition pomName :: "(jsval \<Rightarrow> string option) \<Rightarrow> jsval \<Rightarrow> jsval \<Rightarrow> string option" where
  "pomName textOf groupId artifactId =
     (case templateText textOf groupId of None \<Rightarrow> None | Some g \<Rightarrow>
      case templateText textOf artifactId of None \<Rightarrow> None | Some a \<Rightarrow>
        Some (g @ '':'' @ a))"

text \<open>The body of the loop over the direct dependencies. \<open>version.startsWith\<close> throws
  for a truthy \<open>version\<close> that is not a string.\<close>

definition pomDirect ::
  "(jsval \<Rightarrow> string option) \<Rightarrow> (string \<times> jsval) list \<times> (string \<times> jsval) list \<Rightarrow> jsval
     \<Rightarrow> ((string \<times> jsval) list \<times> (string \<times> jsval) list) option" where
  "pomDirect textOf acc dep =
     (case getProp dep ''groupId'' of None \<Rightarrow> None | Some g \<Rightarrow>
      case getProp dep ''artifactId'' of None \<Rightarrow> None | Some a \<Rightarrow>
      case getProp dep ''version'' of None \<Rightarrow> None | Some v \<Rightarrow>
      case getProp dep ''scope'' of None \<Rightarrow> None | Some s \<Rightarrow>
        (let groupId = firstOf g; artifactId = firstOf a; version = firstOf v; scope = firstOf s
         in if truthy groupId \<and> truthy artifactId \<and> truthy version then
              (case version of
                 JStr vs \<Rightarrow>
                   if startsWith vs ''${'' then Some acc
                   else (case pomName textOf groupId artifactId of
                           None \<Rightarrow> None
                         | Some nm \<Rightarrow>
                             if scope = JStr ''test''
                             then Some (fst acc, mapSet (snd acc) nm version)
                             else Some (mapSet (fst acc) nm version, snd acc))
               | _ \<Rightarrow> None)
            else Some acc))"

text \<open>The body of the loop over the managed dependencies.\<close>

definition pomManaged ::
  "(jsval \<Rightarrow> string option) \<Rightarrow> (string \<times> jsval) list \<times> (string \<times> jsval) list \<Rightarrow> jsval
     \<Rightarrow> ((string \<times> jsval) list \<times> (string \<times> jsval) list) option" where
  "pomManaged textOf acc dep =
     (case getProp dep ''groupId'' of None \<Rightarrow> None | Some g \<Rightarrow>
      case getProp dep ''artifactId'' of None \<Rightarrow> None | Some a \<Rightarrow>
      case getProp dep ''version'' of None \<Rightarrow> None | Some v \<Rightarrow>
        (let groupId = firstOf g; artifactId = firstOf a; version = firstOf v
         in if truthy groupId \<and> truthy artifactId \<and> truthy version then
              (case version of
                 JStr vs \<Rightarrow>
                   if startsWith vs ''${'' then Some acc
                   else (case pomName textOf groupId artifactId of
                           None \<Rightarrow> None
                         | Some nm \<Rightarrow>
                             if nm \<notin> fst ` set (fst acc) \<and> nm \<notin> fst ` set (snd acc)
                             then Some (mapSet (fst acc) nm version, snd acc)
                             else Some acc)
               | _ \<Rightarrow> None)
            else Some acc))"

definition pomBody ::
  "(jsval \<Rightarrow> string option) \<Rightarrow> jsval \<Rightarrow> string ParsedDependencies list option" where
  "pomBody textOf project =
     (case iterate (orEmptyArray (optChain (firstOf (optChain project ''dependencies''))
                                   ''dependency'')) of
        None \<Rightarrow> None
      | Some directDeps \<Rightarrow>
     (case forEach (pomDirect textOf) ([], []) directDeps of
        None \<Rightarrow> None
      | Some acc \<Rightarrow>
     (case iterate (orEmptyArray
                     (optChain (firstOf (optChain (firstOf
                        (optChain project ''dependencyManagement'')) ''dependencies''))
                        ''dependency'')) of
        None \<Rightarrow> None
      | Some managedDeps \<Rightarrow>
     (case forEach (pomManaged textOf) acc managedDeps of
        None \<Rightarrow> None
      | Some acc' \<Rightarrow>
          Some (pushIfAny (fst acc') Production @ pushIfAny (snd acc') Test)))))"

definition parsePomXml ::
  "(jsval \<Rightarrow> string option) \<Rightarrow> loader \<Rightarrow> string \<Rightarrow> string ParsedDependencies list" where
  "parsePomXml textOf parseString content =
     (case parseString content of
        None \<Rightarrow> []
      | Some parsed \<Rightarrow>
          if \<not> truthy parsed then []
          else (case getProp parsed ''project'' of
                  None \<Rightarrow> []
                | Some project \<Rightarrow>
                    if \<not> truthy project then []
                    else (case pomBody textOf project of
                            None \<Rightarrow> []
                          | Some results \<Rightarrow> results)))"

subsection \<open>java.ts: build.gradle\<close>

definition isCoordChar :: "char \<Rightarrow> bool" where
  "isCoordChar c = (isWordChar c \<or> c = CHR ''.'' \<or> c = CHR ''-'')"

text \<open>\<open>['"]([\w.-]+):([\w.-]+):([\w.-]+)['"]\<close>\<close>

definition gradleCoordinates :: regex where
  "gradleCoordinates =
     Seq (Chars isQuote)
    (Seq (Group 1 (Plus (Chars isCoordChar)))
    (Seq (Lit CHR '':'')
    (Seq (Group 2 (Plus (Chars isCoordChar)))
    (Seq (Lit CHR '':'')
    (Seq (Group 3 (Plus (Chars isCoordChar)))
         (Chars isQuote))))))"

text \<open>\<open>(?:implementation|api|compile|runtimeOnly|compileOnly)\<close>\<close>

definition gradleProdKeyword :: regex where
  "gradleProdKeyword =
     Alt (Str ''implementation'') (Alt (Str ''api'') (Alt (Str ''compile'')
         (Alt (Str ''runtimeOnly'') (Str ''compileOnly''))))"

text \<open>\<open>(?:testImplementation|testCompile|testRuntimeOnly|androidTestImplementation)\<close>\<close>

definition gradleTestKeyword :: regex where
  "gradleTestKeyword =
     Alt (Str ''testImplementation'') (Alt (Str ''testCompile'')
         (Alt (Str ''testRuntimeOnly'') (Str ''androidTestImplementation'')))"

text \<open>\<open>keyword\s*(?:\()?['"]...['"]\<close> with the \<open>g\<close> flag.\<close>

definition gradlePattern :: "regex \<Rightarrow> regex" where
  "gradlePattern keyword =
     Seq keyword (Seq (Star (Chars isWhiteSpace)) (Seq (Opt (Lit CHR ''('')) gradleCoordinates))"

text \<open>\<open>keyword\s*\(\s*['"]...['"]\s*\)\<close> with the \<open>g\<close> flag.\<close>

definition kotlinPattern :: "regex \<Rightarrow> regex" where
  "kotlinPattern keyword =
     Seq keyword (Seq (Star (Chars isWhiteSpace)) (Seq (Lit CHR ''('')
    (Seq (Star (Chars isWhiteSpace)) (Seq gradleCoordinates
    (Seq (Star (Chars isWhiteSpace)) (Lit CHR '')''))))))"

text \<open>The body of the four \<open>while\<close> loops; a group that is \<open>undefined\<close> prints as
  \<open>undefined\<close> in the template literal.\<close>

definition gradleMatch :: "(string \<times> jsval) list \<Rightarrow> captures \<Rightarrow> (string \<times> jsval) list" where
  "gradleMatch deps m =
     mapSet deps
       ((case m 1 of Some g \<Rightarrow> g | None \<Rightarrow> ''undefined'') @ '':''
        @ (case m 2 of Some a \<Rightarrow> a | None \<Rightarrow> ''undefined''))
       (captured (m 3))"

definition parseBuildGradle :: "string \<Rightarrow> string ParsedDependencies list" where
  "parseBuildGradle content =
     (let prodDeps = foldl gradleMatch [] (allMatches (gradlePattern gradleProdKeyword) content);
          testDeps = foldl gradleMatch [] (allMatches (gradlePattern gradleTestKeyword) content);
          prodDeps' = foldl gradleMatch prodDeps
                        (allMatches (kotlinPattern gradleProdKeyword) content);
          testDeps' = foldl gradleMatch testDeps
                        (allMatches (kotlinPattern gradleTestKeyword) content)
      in pushIfAny prodDeps' Production @ pushIfAny testDeps' Test)"

subsection \<open>rust.ts\<close>

text \<open>
  The loop of \<open>checkNestingDepth\<close> in rust.ts, on the rest of the content from the
  index \<open>i\<close> on: \<open>content.slice(i, i + n)\<close> is \<open>take n\<close> of that rest. Of the copies
  of rust.ts among the sources this is the one that knows triple-quoted strings.
\<close>

function rustDepthLoop :: "int \<Rightarrow> bool \<Rightarrow> string \<Rightarrow> bool \<Rightarrow> int \<Rightarrow> string \<Rightarrow> bool" where
  "rustDepthLoop depth inString stringDelimiter escape maxDepth [] = True"
| "rustDepthLoop depth inString stringDelimiter escape maxDepth (c # cs) =
     (if escape then rustDepthLoop depth inString stringDelimiter False maxDepth cs
      else if c = CHR 0x5C \<and> inString
      then rustDepthLoop depth inString stringDelimiter True maxDepth cs
      else if \<not> inString \<and> (c = CHR 0x22 \<or> c = CHR 0x27) then
        (if take 3 (c # cs) = [c, c, c]
         then rustDepthLoop depth True [c, c, c] escape maxDepth (drop 3 (c # cs))
         else rustDepthLoop depth True [c] escape maxDepth cs)
      else if inString then
        (if take (length stringDelimiter) (c # cs) = stringDelimiter
         then rustDepthLoop depth False [] escape maxDepth (drop (length stringDelimiter) (c # cs))
         else rustDepthLoop depth inString stringDelimiter escape maxDepth cs)
      else if isOpenBracket c then
        (if depth + 1 > maxDepth then False
         else rustDepthLoop (depth + 1) inString stringDelimiter escape maxDepth cs)
      else if isCloseBracket c then
        (if depth - 1 < 0 then False
         else rustDepthLoop (depth - 1) inString stringDelimiter escape maxDepth cs)
      else rustDepthLoop depth inString stringDelimiter escape maxDepth cs)"
  by pat_completeness auto
termination
  by (relation "measure (\<lambda>(depth, inString, stringDelimiter, escape, maxDepth, rest).
                   2 * length rest + (if inString then 1 else 0))") auto

definition checkNestingDepthRust :: "string \<Rightarrow> int \<Rightarrow> bool" where
  "checkNestingDepthRust content maxDepth = rustDepthLoop 0 False [] False maxDepth content"

definition safeTomlParseRust :: "loader \<Rightarrow> string \<Rightarrow> jsval option" where
  "safeTomlParseRust toml_parse content =
     (if \<not> checkNestingDepthRust content MAX_NESTING_DEPTH then Some JNull
      else toml_parse content)"

text \<open>The loop of a section of Cargo.toml: \<open>deps.set(name, version)\<close>.\<close>

definition cargoEntry :: "(string \<times> jsval) list \<Rightarrow> string \<times> jsval \<Rightarrow> (string \<times> jsval) list option" where
  "cargoEntry deps entry =
     (case entryVersion (snd entry) of
        None \<Rightarrow> None
      | Some version \<Rightarrow> Some (mapSet deps (fst entry) version))"

definition cargoSection :: "jsval \<Rightarrow> DependencyType \<Rightarrow> string ParsedDependencies list option" where
  "cargoSection section dt =
     (if \<not> truthy section then Some []
      else case objectEntries section of
             None \<Rightarrow> None
           | Some es \<Rightarrow>
               (case forEach cargoEntry [] es of
                  None \<Rightarrow> None
                | Some deps \<Rightarrow> Some (pushIfAny deps dt)))"

definition cargoTomlBody :: "jsval \<Rightarrow> string ParsedDependencies list option" where
  "cargoTomlBody cargo =
     (case getProp cargo ''dependencies'' of None \<Rightarrow> None | Some ds \<Rightarrow>
      case cargoSection ds Production of None \<Rightarrow> None | Some r1 \<Rightarrow>
      case getProp cargo ''dev-dependencies'' of None \<Rightarrow> None | Some dd \<Rightarrow>
      case cargoSection dd Development of None \<Rightarrow> None | Some r2 \<Rightarrow>
      case getProp cargo ''build-dependencies'' of None \<Rightarrow> None | Some bd \<Rightarrow>
      case cargoSection bd Build of None \<Rightarrow> None | Some r3 \<Rightarrow>
        Some (r1 @ r2 @ r3))"

definition parseCargoToml :: "loader \<Rightarrow> string \<Rightarrow> string ParsedDependencies list" where
  "parseCargoToml toml_parse content =
     (case safeTomlParseRust toml_parse content of
        None \<Rightarrow> []
      | Some cargo \<Rightarrow>
          if \<not> truthy cargo then []
          else (case cargoTomlBody cargo of None \<Rightarrow> [] | Some results \<Rightarrow> results))"

text \<open>The loop of Cargo.lock: \<open>deps.set(pkg.name, pkg.version)\<close>, whatever the two
  values are.\<close>

definition cargoLockPackage :: "(jsval \<times> jsval) list \<Rightarrow> jsval \<Rightarrow> (jsval \<times> jsval) list option" where
  "cargoLockPackage deps pkg =
     (case getProp pkg ''name'' of None \<Rightarrow> None | Some nm \<Rightarrow>
      case getProp pkg ''version'' of None \<Rightarrow> None | Some version \<Rightarrow>
        Some (mapSetJs deps nm version))"

definition cargoLockBody :: "jsval \<Rightarrow> jsval ParsedDependencies list option" where
  "cargoLockBody lock =
     (case getProp lock ''package'' of None \<Rightarrow> None | Some package \<Rightarrow>
      case (if truthy package
            then (case iterate package of
                    None \<Rightarrow> None
                  | Some pkgs \<Rightarrow> forEach cargoLockPackage [] pkgs)
            else Some []) of None \<Rightarrow> None | Some deps \<Rightarrow>
        Some (if length deps = 0 then []
              else [\<lparr>dependencies = deps, dependencyType' = Production\<rparr>]))"

definition parseCargoLock :: "loader \<Rightarrow> string \<Rightarrow> jsval ParsedDependencies list" where
  "parseCargoLock toml_parse content =
     (case safeTomlParseRust toml_parse content of
        None \<Rightarrow> []
      | Some lock \<Rightarrow>
          if \<not> truthy lock then []
          else (case cargoLockBody lock of None \<Rightarrow> [] | Some results \<Rightarrow> results))"

subsection \<open>dotnet.ts\<close>

text \<open>The body of the loops over \<open>PackageReference\<close> and over \<open>package\<close>: the two
  attributes are read from \<open>$\<close> and stored when both are truthy.\<close>

definition attributePair ::
  "string \<Rightarrow> string \<Rightarrow> (jsval \<times> jsval) list \<Rightarrow> jsval \<Rightarrow> (jsval \<times> jsval) list option" where
  "attributePair idAttr versionAttr deps element =
     (case getProp element ''$'' of None \<Rightarrow> None | Some attrs \<Rightarrow>
        (let ident = optChain attrs idAttr; version = optChain attrs versionAttr
         in if truthy ident \<and> truthy version then Some (mapSetJs deps ident version)
            else Some deps))"

definition itemGroupStep :: "(jsval \<times> jsval) list \<Rightarrow> jsval \<Rightarrow> (jsval \<times> jsval) list option" where
  "itemGroupStep deps itemGroup =
     (case getProp itemGroup ''PackageReference'' of None \<Rightarrow> None | Some refs \<Rightarrow>
      if truthy refs
      then (case iterate refs of
              None \<Rightarrow> None
            | Some rs \<Rightarrow> forEach (attributePair ''Include'' ''Version'') deps rs)
      else Some deps)"

definition csprojBody :: "jsval \<Rightarrow> jsval ParsedDependencies list option" where
  "csprojBody parsed =
     (case getProp parsed ''Project'' of None \<Rightarrow> None | Some project \<Rightarrow>
      case (let itemGroups = optChain project ''ItemGroup'' in
            if truthy itemGroups
            then (case iterate itemGroups of
                    None \<Rightarrow> None
                  | Some gs \<Rightarrow> forEach itemGroupStep [] gs)
            else Some []) of None \<Rightarrow> None | Some deps \<Rightarrow>
      case getProp parsed ''packages'' of None \<Rightarrow> None | Some packagesConfig \<Rightarrow>
      case (let packages = optChain packagesConfig ''package'' in
            if truthy packages
            then (case iterate packages of
                    None \<Rightarrow> None
                  | Some ps \<Rightarrow> forEach (attributePair ''id'' ''version'') deps ps)
            else Some deps) of None \<Rightarrow> None | Some deps' \<Rightarrow>
        Some (if length deps' = 0 then []
              else [\<lparr>dependencies = deps', dependencyType' = Production\<rparr>]))"

definition parseCsproj :: "loader \<Rightarrow> string \<Rightarrow> jsval ParsedDependencies list" where
  "parseCsproj parseString content =
     (case parseString content of
        None \<Rightarrow> []
      | Some parsed \<Rightarrow>
          if \<not> truthy parsed then []
          else (case csprojBody parsed of None \<Rightarrow> [] | Some results \<Rightarrow> results))"

definition parsePackagesConfig :: "loader \<Rightarrow> string \<Rightarrow> jsval ParsedDependencies list" where
  "parsePackagesConfig parseString content = parseCsproj parseString content"

section \<open>Predicates and inputs used in the properties\<close>

text \<open>The keys of a map are distinct and each key is its own lower-case form.\<close>

definition lowercaseKeys :: "(string \<times> jsval) list \<Rightarrow> bool" where
  "lowercaseKeys deps =
     (distinct (map fst deps) \<and> list_all (\<lambda>k. toLowerCase k = k) (map fst deps))"

text \<open>
  A \<open>pyproject.toml\<close> with \<open>n\<close> entries in \<open>[tool.poetry.dependencies]\<close>, named
  \<open>a\<close>, \<open>aa\<close>, \<open>aaa\<close> and so on, each with the version \<open>"1.0"\<close>: the text of the
  file, and the document that a TOML parser reads from it.
\<close>

definition manyNames :: "nat \<Rightarrow> string list" where
  "manyNames n = map (\<lambda>i. replicate (Suc i) CHR ''a'') [0..<n]"

definition poetryFile :: "nat \<Rightarrow> string" where
  "poetryFile n =
     ''[tool.poetry.dependencies]'' @ [CHR 0x0A]
     @ concat (map (\<lambda>nm. nm @ '' = '' @ [CHR 0x22] @ ''1.0'' @ [CHR 0x22, CHR 0x0A]) (manyNames n))"

definition poetryDocument :: "nat \<Rightarrow> jsval" where
  "poetryDocument n =
     JObj [(''tool'', JObj [(''poetry'', JObj [(''dependencies'',
       JObj (map (\<lambda>nm. (nm, JStr ''1.0'')) (manyNames n)))])])]"

text \<open>A Pipfile that declares the package \<open>requests\<close> twice, in different case, and
  the document that a TOML parser reads from it.\<close>

definition pipfileText :: string where
  "pipfileText =
     ''[packages]'' @ [CHR 0x0A]
     @ ''Requests = '' @ [CHR 0x22] @ ''*'' @ [CHR 0x22, CHR 0x0A]
     @ ''requests = '' @ [CHR 0x22] @ ''==2.31.0'' @ [CHR 0x22, CHR 0x0A]"

definition pipfileDocument :: jsval where
  "pipfileDocument =
     JObj [(''packages'', JObj [(''Requests'', JStr ''*''), (''requests'', JStr ''==2.31.0'')])]"

text \<open>Inputs that are not what a parser expects: a \<open>package.json\<close> cut off in the
  middle, a JSON text of 21 nested arrays, and a \<open>pom.xml\<close> that ends before its
  elements are closed.\<close>

definition truncatedJson :: string where
  "truncatedJson =
     ''{'' @ [CHR 0x22] @ ''dependencies'' @ [CHR 0x22] @ '': {'' @ [CHR 0x22] @ ''lodash''
     @ [CHR 0x22] @ '': '' @ [CHR 0x22] @ ''4.17.''"

definition deepJson :: string where
  "deepJson = ''[[[[[[[[[[[[[[[[[[[[[]]]]]]]]]]]]]]]]]]]]]''"

definition invalidXml :: string where
  "invalidXml = ''<project><dependencies>''"

text \<open>A \<open>go.mod\<close> that ends inside its \<open>require (\<close> block.\<close>

definition truncatedGoMod :: string where
  "truncatedGoMod =
     ''module example.com/app'' @ [CHR 0x0A, CHR 0x0A]
     @ ''require ('' @ [CHR 0x0A, CHR 0x09]
     @ ''github.com/pkg/errors v0.9.1'' @ [CHR 0x0A]"

text \<open>
  A \<open>package-lock.json\<close> with one package and, beside it, 21 nested arrays:
  \<open>{"packages":{"node_modules/a":{"version":"1.0.0"}},"x":[[[...]]]}\<close>, and the value
  that \<open>JSON.parse\<close> reads from it.
\<close>

definition deepLockText :: string where
  "deepLockText =
     ''{'' @ [CHR 0x22] @ ''packages'' @ [CHR 0x22] @ '':{'' @ [CHR 0x22] @ ''node_modules/a''
     @ [CHR 0x22] @ '':{'' @ [CHR 0x22] @ ''version'' @ [CHR 0x22] @ '':'' @ [CHR 0x22]
     @ ''1.0.0'' @ [CHR 0x22] @ ''}},'' @ [CHR 0x22] @ ''x'' @ [CHR 0x22] @ '':''
     @ deepJson @ ''}''"

definition deepLockDocument :: jsval where
  "deepLockDocument =
     JObj [(''packages'', JObj [(''node_modules/a'', JObj [(''version'', JStr ''1.0.0'')])]),
           (''x'', ((\<lambda>v. JArr [v]) ^^ 20) (JArr []))]"

text \<open>A loaded document is an object: not \<open>undefined\<close>, \<open>null\<close>, a boolean, a number, a
  string or an array.\<close>

definition isObject :: "jsval \<Rightarrow> bool" where
  "isObject v = (case v of JObj kvs \<Rightarrow> True | _ \<Rightarrow> False)"

text \<open>
  What each of the seven parsers that scan the text themselves looks for: whether some
  line of the text (for \<open>build.gradle\<close>, some place in the text) matches the pattern
  from whose groups the parser builds an entry.
\<close>

definition anyRequirementLine :: "string \<Rightarrow> bool" where
  "anyRequirementLine content =
     list_ex (\<lambda>line. matchStart requirementRe (trim line) \<noteq> None
                     \<or> matchStart nameRe (trim line) \<noteq> None) (split CHR 0x0A content)"

definition anyYarnVersionLine :: "string \<Rightarrow> bool" where
  "anyYarnVersionLine content =
     list_ex (\<lambda>line. matchAnywhere yarnVersionRe line \<noteq> None) (split CHR 0x0A content)"

definition anyGoRequireLine :: "string \<Rightarrow> bool" where
  "anyGoRequireLine content =
     list_ex (\<lambda>line. matchStart goBlockRe (trim line) \<noteq> None
                     \<or> matchStart goRequireRe (trim line) \<noteq> None) (split CHR 0x0A content)"

definition anyGoSumLine :: "string \<Rightarrow> bool" where
  "anyGoSumLine content =
     list_ex (\<lambda>line. matchStart goSumRe (trim line) \<noteq> None) (split CHR 0x0A content)"

definition anyGemLine :: "string \<Rightarrow> bool" where
  "anyGemLine content =
     list_ex (\<lambda>line. matchStart gemRe (trim line) \<noteq> None) (split CHR 0x0A content)"

definition anyGemSpecLine :: "string \<Rightarrow> bool" where
  "anyGemSpecLine content =
     list_ex (\<lambda>line. matchStart gemSpecRe line \<noteq> None) (split CHR 0x0A content)"

definition anyGradleDeclaration :: "string \<Rightarrow> bool" where
  "anyGradleDeclaration content =
     list_ex (\<lambda>r. matchAnywhere r content \<noteq> None)
       [gradlePattern gradleProdKeyword, gradlePattern gradleTestKeyword,
        kotlinPattern gradleProdKeyword, kotlinPattern gradleTestKeyword]"

section \<open>Properties\<close>

subsection \<open>Evaluation\<close>

lemmas eval_defs = determineChangeType_def cleanVersion_def trim_def isRangeOperator_def
  isWhiteSpace_def semver_on_tests_def diffTriple_def classifyDiff_def compareVersions_def
  checkOld_def checkNew_def has_def

subsection \<open>cleanVersion\<close>

lemma dropWhile_hd_id: "(case s of [] \<Rightarrow> True | c # _ \<Rightarrow> \<not> P c) \<Longrightarrow> dropWhile P s = s"
  by (cases s) auto

lemma hd_dropWhile_not: "(case dropWhile P s of [] \<Rightarrow> True | c # _ \<Rightarrow> \<not> P c)"
  by (induction s) auto

lemma trim_front: "(case trim s of [] \<Rightarrow> True | c # _ \<Rightarrow> \<not> isWhiteSpace c)"
proof -
  let ?u = "dropWhile isWhiteSpace s"
  have u: "(case ?u of [] \<Rightarrow> True | c # _ \<Rightarrow> \<not> isWhiteSpace c)" by (rule hd_dropWhile_not)
  show ?thesis
  proof (cases ?u)
    case Nil
    have "trim s = []" unfolding trim_def Nil by simp
    then show ?thesis by simp
  next
    case (Cons c cs)
    with u have c: "\<not> isWhiteSpace c" by simp
    have "dropWhile isWhiteSpace (rev cs @ [c]) = dropWhile isWhiteSpace (rev cs) @ [c]"
      using c by (simp add: dropWhile_append3)
    then have "trim s = c # rev (dropWhile isWhiteSpace (rev cs))"
      using Cons by (simp add: trim_def)
    then show ?thesis using c by simp
  qed
qed

lemma trim_back: "(case rev (trim s) of [] \<Rightarrow> True | c # _ \<Rightarrow> \<not> isWhiteSpace c)"
  by (simp add: trim_def hd_dropWhile_not)

lemma trim_idem: "trim (trim s) = trim s"
proof -
  have "dropWhile isWhiteSpace (trim s) = trim s"
    by (rule dropWhile_hd_id) (rule trim_front)
  moreover have "dropWhile isWhiteSpace (rev (trim s)) = rev (trim s)"
    by (rule dropWhile_hd_id) (rule trim_back)
  ultimately show ?thesis by (simp add: trim_def[of "trim s"])
qed

lemma length_trim: "length (trim s) \<le> length s"
proof -
  have "length (trim s) \<le> length (dropWhile isWhiteSpace s)"
    by (simp add: trim_def length_dropWhile_le del: rev_rev_ident) (metis length_dropWhile_le length_rev)
  also have "\<dots> \<le> length s" by (rule length_dropWhile_le)
  finally show ?thesis .
qed

text \<open>
  How far the order of the two steps matters: a second application changes the result
  exactly when the first one left an operator character at the front.
\<close>

lemma cleanVersion_idem_iff:
  "cleanVersion (cleanVersion v) = cleanVersion v \<longleftrightarrow> \<not> startsWithOperator (cleanVersion v)"
proof (cases "startsWithOperator (cleanVersion v)")
  case False
  then have "dropWhile isRangeOperator (cleanVersion v) = cleanVersion v"
    by (intro dropWhile_hd_id) (simp add: startsWithOperator_def split: list.splits)
  then have "cleanVersion (cleanVersion v) = trim (cleanVersion v)"
    by (simp add: cleanVersion_def[of "cleanVersion v"])
  also have "\<dots> = cleanVersion v" by (simp add: cleanVersion_def trim_idem)
  finally show ?thesis using False by simp
next
  case True
  then obtain c cs where w: "cleanVersion v = c # cs" and c: "isRangeOperator c"
    by (auto simp: startsWithOperator_def split: list.splits)
  have "length (cleanVersion (cleanVersion v)) \<le> length (dropWhile isRangeOperator (c # cs))"
    unfolding w by (simp add: cleanVersion_def[of "c # cs"] length_trim)
  also have "\<dots> \<le> length cs" using c by (simp add: length_dropWhile_le)
  finally have "length (cleanVersion (cleanVersion v)) < length (cleanVersion v)"
    by (simp add: w)
  then show ?thesis using True by auto
qed

text \<open>
  C7 at \<open>v = " ^1.0.0"\<close>: \<open>cleanVersion\<close> removes the operators before it trims, so
  the operator behind the white space survives the first application and is removed by
  the second. The function's comment says that it removes the common prefixes.
\<close>

theorem cleanVersion_not_idempotent:
  "cleanVersion '' ^1.0.0'' = ''^1.0.0''
   \<and> cleanVersion ''^1.0.0'' = ''1.0.0''
   \<and> cleanVersion (cleanVersion '' ^1.0.0'') \<noteq> cleanVersion '' ^1.0.0''"
  by (simp add: cleanVersion_def trim_def isRangeOperator_def isWhiteSpace_def)

text \<open>
  What follows for \<open>compareVersions\<close>: white space before a bare version is ignored,
  white space before an operator is reported as a change of version.
\<close>

lemma compareVersions_leading_space:
  "compareVersions sv [(''x'', ''1.0.0'')] [(''x'', '' 1.0.0'')] Node ''package.json'' Production
     = []
   \<and> compareVersions sv [(''x'', ''^1.0.0'')] [(''x'', '' ^1.0.0'')] Node ''package.json''
       Production
     = [\<lparr>name = ''x'', ecosystem = Node, file' = ''package.json'',
         oldVersion = Some ''^1.0.0'', newVersion = Some '' ^1.0.0'',
         changeType = determineChangeType sv ''^1.0.0'' '' ^1.0.0'',
         dependencyType = Production\<rparr>]"
  by (simp add: compareVersions_def checkOld_def checkNew_def has_def cleanVersion_def trim_def
      isRangeOperator_def isWhiteSpace_def)


subsection \<open>determineChangeType\<close>

lemma determineChangeType_cases:
  "determineChangeType sv a b \<in> {Major, Minor, Patch, Prerelease, Other}"
  by (simp add: determineChangeType_def classifyDiff_def Let_def split: option.splits)

text \<open>
  C3: when both cleaned strings coerce and \<open>semver.prerelease\<close> finds prerelease
  identifiers on the cleaned new version, the result is \<open>prerelease\<close>, whatever
  \<open>semver.diff\<close> says about the two coerced versions.
\<close>

theorem determineChangeType_prerelease_first:
  assumes "coerce sv (cleanVersion oldV) \<noteq> None"
    and "coerce sv (cleanVersion newV) \<noteq> None"
    and "prerelease sv (cleanVersion newV) \<noteq> None"
  shows "determineChangeType sv oldV newV = Prerelease"
  using assms by (auto simp: determineChangeType_def Let_def)

text \<open>The example of C3: \<open>"1.0.0"\<close> to \<open>"2.0.0-alpha.1"\<close> is a major difference
  of the coerced versions and is classified \<open>prerelease\<close>.\<close>

theorem determineChangeType_prerelease_first_witness:
  "coerce semver_on_tests (cleanVersion ''1.0.0'') = Some (1, 0, 0)
   \<and> coerce semver_on_tests (cleanVersion ''2.0.0-alpha.1'') = Some (2, 0, 0)
   \<and> prerelease semver_on_tests (cleanVersion ''2.0.0-alpha.1'') = Some [''alpha'', ''1'']
   \<and> diff semver_on_tests (1, 0, 0) (2, 0, 0) = Some ''major''
   \<and> determineChangeType semver_on_tests ''1.0.0'' ''2.0.0-alpha.1'' = Prerelease"
proof -
  have c1: "coerce semver_on_tests (cleanVersion ''1.0.0'') = Some (1, 0, 0)"
    by (simp add: eval_defs)
  have c2: "coerce semver_on_tests (cleanVersion ''2.0.0-alpha.1'') = Some (2, 0, 0)"
    by (simp add: eval_defs)
  have p: "prerelease semver_on_tests (cleanVersion ''2.0.0-alpha.1'') = Some [''alpha'', ''1'']"
    by (simp add: eval_defs)
  have d: "diff semver_on_tests (1, 0, 0) (2, 0, 0) = Some ''major''"
    by (simp add: eval_defs)
  have "determineChangeType semver_on_tests ''1.0.0'' ''2.0.0-alpha.1'' = Prerelease"
    by (rule determineChangeType_prerelease_first) (simp_all add: c1 c2 p)
  with c1 c2 p d show ?thesis by simp
qed

text \<open>
  C9: when the coercion of either cleaned string fails, the result is \<open>other\<close>, also
  when the two cleaned strings are equal.
\<close>

theorem determineChangeType_uncoercible:
  assumes "coerce sv (cleanVersion oldV) = None \<or> coerce sv (cleanVersion newV) = None"
  shows "determineChangeType sv oldV newV = Other"
  using assms by (auto simp: determineChangeType_def Let_def split: option.splits)

text \<open>The example of C9: \<open>"not-a-version"\<close> against \<open>"also-not"\<close>, and against
  itself.\<close>

theorem determineChangeType_uncoercible_witness:
  "coerce semver_on_tests (cleanVersion ''not-a-version'') = None
   \<and> determineChangeType semver_on_tests ''not-a-version'' ''also-not'' = Other
   \<and> determineChangeType semver_on_tests ''not-a-version'' ''not-a-version'' = Other"
proof -
  have c: "coerce semver_on_tests (cleanVersion ''not-a-version'') = None"
    by (simp add: eval_defs)
  from c have "determineChangeType semver_on_tests ''not-a-version'' ''also-not'' = Other"
    by (intro determineChangeType_uncoercible) simp
  moreover from c have "determineChangeType semver_on_tests ''not-a-version'' ''not-a-version'' = Other"
    by (intro determineChangeType_uncoercible) simp
  ultimately show ?thesis using c by simp
qed

subsection \<open>compareVersions\<close>

text \<open>
  C4: in every change that \<open>compareVersions\<close> returns, exactly one of
  \<open>oldVersion\<close> and \<open>newVersion\<close> is null if and only if the change type is
  \<open>added\<close> or \<open>removed\<close>; \<open>oldVersion\<close> is null for \<open>added\<close>,
  \<open>newVersion\<close> for \<open>removed\<close>, and neither is null for any other type.
\<close>

theorem compareVersions_null_fields:
  "\<forall>c \<in> set (compareVersions sv oldDeps newDeps eco f dt).
     (((oldVersion c = None) \<noteq> (newVersion c = None)) = (changeType c \<in> {Added, Removed}))
     \<and> (changeType c = Added \<longrightarrow> oldVersion c = None)
     \<and> (changeType c = Removed \<longrightarrow> newVersion c = None)
     \<and> (changeType c \<notin> {Added, Removed} \<longrightarrow> oldVersion c \<noteq> None \<and> newVersion c \<noteq> None)"
proof
  fix c assume "c \<in> set (compareVersions sv oldDeps newDeps eco f dt)"
  then consider
    (old) e where "e \<in> set oldDeps" "c \<in> set (checkOld sv newDeps eco f dt e)"
  | (new) e where "e \<in> set newDeps" "c \<in> set (checkNew oldDeps eco f dt e)"
    by (auto simp: compareVersions_def)
  then show "(((oldVersion c = None) \<noteq> (newVersion c = None)) = (changeType c \<in> {Added, Removed}))
     \<and> (changeType c = Added \<longrightarrow> oldVersion c = None)
     \<and> (changeType c = Removed \<longrightarrow> newVersion c = None)
     \<and> (changeType c \<notin> {Added, Removed} \<longrightarrow> oldVersion c \<noteq> None \<and> newVersion c \<noteq> None)"
  proof cases
    case old
    obtain nm ov where e: "e = (nm, ov)" by (cases e)
    have "determineChangeType sv ov nv \<noteq> Added \<and> determineChangeType sv ov nv \<noteq> Removed" for nv
      using determineChangeType_cases[of sv ov nv] by auto
    with old(2) show ?thesis
      by (auto simp: checkOld_def e split: option.splits if_splits)
  next
    case new
    then show ?thesis by (auto simp: checkNew_def split: prod.splits if_splits)
  qed
qed


text \<open>C4 on a comparison with one changed, one removed and one added package.\<close>

theorem compareVersions_null_fields_witness:
  "\<lparr>name = ''lodash'', ecosystem = Node, file' = ''package.json'',
     oldVersion = Some ''4.17.20'', newVersion = Some ''4.17.21'', changeType = Patch,
     dependencyType = Production\<rparr>
     \<in> set (compareVersions semver_on_tests
              [(''lodash'', ''4.17.20''), (''left-pad'', ''1.0.0'')]
              [(''lodash'', ''4.17.21''), (''react'', ''2.0.0'')]
              Node ''package.json'' Production)
   \<and> \<lparr>name = ''left-pad'', ecosystem = Node, file' = ''package.json'',
     oldVersion = Some ''1.0.0'', newVersion = None, changeType = Removed,
     dependencyType = Production\<rparr>
     \<in> set (compareVersions semver_on_tests
              [(''lodash'', ''4.17.20''), (''left-pad'', ''1.0.0'')]
              [(''lodash'', ''4.17.21''), (''react'', ''2.0.0'')]
              Node ''package.json'' Production)
   \<and> \<lparr>name = ''react'', ecosystem = Node, file' = ''package.json'',
     oldVersion = None, newVersion = Some ''2.0.0'', changeType = Added,
     dependencyType = Production\<rparr>
     \<in> set (compareVersions semver_on_tests
              [(''lodash'', ''4.17.20''), (''left-pad'', ''1.0.0'')]
              [(''lodash'', ''4.17.21''), (''react'', ''2.0.0'')]
              Node ''package.json'' Production)"
  using compareVersions_null_fields[of semver_on_tests
      "[(''lodash'', ''4.17.20''), (''left-pad'', ''1.0.0'')]"
      "[(''lodash'', ''4.17.21''), (''react'', ''2.0.0'')]" Node "''package.json''" Production]
  by (simp add: eval_defs)


lemma filter_concat_map_key:
  assumes "distinct (map fst m)"
    and "\<And>k v c. (k, v) \<in> set m \<Longrightarrow> c \<in> set (g (k, v)) \<Longrightarrow> name c = k"
  shows "filter (\<lambda>c. name c = n) (concat (map g m))
           = (case map_of m n of None \<Rightarrow> [] | Some v \<Rightarrow> g (n, v))"
  using assms
proof (induction m)
  case Nil
  then show ?case by simp
next
  case (Cons e m)
  obtain k v where e: "e = (k, v)" by (cases e)
  have names: "\<forall>c \<in> set (g (k, v)). name c = k"
    using Cons.prems(2)[of k v] by (simp add: e)
  have IH: "filter (\<lambda>c. name c = n) (concat (map g m))
              = (case map_of m n of None \<Rightarrow> [] | Some v \<Rightarrow> g (n, v))"
  proof (rule Cons.IH)
    show "distinct (map fst m)" using Cons.prems(1) by simp
    show "\<And>k v c. (k, v) \<in> set m \<Longrightarrow> c \<in> set (g (k, v)) \<Longrightarrow> name c = k"
      using Cons.prems(2) by (meson list.set_intros(2))
  qed
  show ?case
  proof (cases "k = n")
    case True
    have "map_of m n = None"
      using Cons.prems(1) True by (simp add: e map_of_eq_None_iff)
    moreover have "filter (\<lambda>c. name c = n) (g (k, v)) = g (k, v)"
      using names True by (simp add: filter_id_conv)
    ultimately show ?thesis using IH True by (simp add: e)
  next
    case False
    have "filter (\<lambda>c. name c = n) (g (k, v)) = []"
      using names False by (auto simp: filter_empty_conv)
    then show ?thesis using IH False by (simp add: e)
  qed
qed

lemma checkOld_name: "c \<in> set (checkOld sv newDeps eco f dt (k, v)) \<Longrightarrow> name c = k"
  by (auto simp: checkOld_def split: option.splits if_splits)

lemma checkNew_name: "c \<in> set (checkNew oldDeps eco f dt (k, v)) \<Longrightarrow> name c = k"
  by (auto simp: checkNew_def split: if_splits)

lemma compareVersions_filter_name:
  assumes "distinct (map fst oldDeps)" and "distinct (map fst newDeps)"
  shows "filter (\<lambda>c. name c = n) (compareVersions sv oldDeps newDeps eco f dt)
           = (case map_of oldDeps n of None \<Rightarrow> [] | Some ov \<Rightarrow> checkOld sv newDeps eco f dt (n, ov))
             @ (case map_of newDeps n of None \<Rightarrow> [] | Some nv \<Rightarrow> checkNew oldDeps eco f dt (n, nv))"
  unfolding compareVersions_def filter_append
  using filter_concat_map_key[OF assms(1), of "checkOld sv newDeps eco f dt" n]
        filter_concat_map_key[OF assms(2), of "checkNew oldDeps eco f dt" n]
  by (simp add: checkOld_name checkNew_name)

lemma compareVersions_by_name:
  assumes "distinct (map fst oldDeps)" and "distinct (map fst newDeps)"
    and "\<forall>v \<in> snd ` set newDeps. v \<noteq> []"
  shows "filter (\<lambda>c. name c = n) (compareVersions sv oldDeps newDeps eco f dt)
           = (case (map_of oldDeps n, map_of newDeps n) of
                (Some ov, None) \<Rightarrow>
                  [\<lparr>name = n, ecosystem = eco, file' = f, oldVersion = Some ov,
                    newVersion = None, changeType = Removed, dependencyType = dt\<rparr>]
              | (Some ov, Some nv) \<Rightarrow>
                  if cleanVersion ov \<noteq> cleanVersion nv then
                    [\<lparr>name = n, ecosystem = eco, file' = f, oldVersion = Some ov,
                      newVersion = Some nv, changeType = determineChangeType sv ov nv,
                      dependencyType = dt\<rparr>]
                  else []
              | (None, Some nv) \<Rightarrow>
                  [\<lparr>name = n, ecosystem = eco, file' = f, oldVersion = None,
                    newVersion = Some nv, changeType = Added, dependencyType = dt\<rparr>]
              | (None, None) \<Rightarrow> [])"
proof -
  have ne: "map_of newDeps n = Some nv \<Longrightarrow> nv \<noteq> []" for nv
    using assms(3) by (auto dest!: map_of_SomeD simp: image_iff) 
  have h: "has oldDeps n \<longleftrightarrow> map_of oldDeps n \<noteq> None"
    by (simp add: has_def map_of_eq_None_iff)
  show ?thesis
    unfolding compareVersions_filter_name[OF assms(1,2)]
    by (auto simp: checkOld_def checkNew_def h dest: ne split: option.splits)
qed

text \<open>
  C1 at \<open>oldDeps = {x: "1.0.0"}\<close>, \<open>newDeps = {x: ""}\<close>: the name is present in
  both maps and the cleaned versions differ, and the only change returned is a
  \<open>removed\<close> one with a null \<open>newVersion\<close>, because \<open>!newVersion\<close> also holds for
  the empty string.
\<close>

theorem compareVersions_empty_new_version:
  "compareVersions sv [(''x'', ''1.0.0'')] [(''x'', '''')] Node ''package.json'' Production
     = [\<lparr>name = ''x'', ecosystem = Node, file' = ''package.json'',
         oldVersion = Some ''1.0.0'', newVersion = None, changeType = Removed,
         dependencyType = Production\<rparr>]
   \<and> has [(''x'', '''')] ''x''
   \<and> cleanVersion ''1.0.0'' \<noteq> cleanVersion ''''"
  by (simp add: compareVersions_def checkOld_def checkNew_def has_def cleanVersion_def trim_def
      isRangeOperator_def isWhiteSpace_def)

subsection \<open>deduplicateChanges\<close>

lemma changeKey_inj:
  "changeKey c = changeKey d \<longleftrightarrow> ecosystem c = ecosystem d \<and> name c = name d"
  unfolding changeKey_def ecosystemName_def
  by (cases "ecosystem c"; cases "ecosystem d"; simp)

lemma map_of_mapSet: "map_of (mapSet m k v) = (map_of m)(k \<mapsto> v)"
  by (induction m) (auto simp: fun_eq_iff)

lemma keys_mapSet:
  "map fst (mapSet m k v) = (if k \<in> fst ` set m then map fst m else map fst m @ [k])"
  by (induction m) (force simp: image_iff)+

lemma distinct_mapSet: "distinct (map fst m) \<Longrightarrow> distinct (map fst (mapSet m k v))"
  by (simp add: keys_mapSet)

lemma find_snoc:
  "find P (xs @ [x]) = (case find P xs of Some y \<Rightarrow> Some y | None \<Rightarrow> if P x then Some x else None)"
  by (induction xs) auto

lemma spec_survivor_snoc_other:
  "changeKey c \<noteq> k \<Longrightarrow> spec_survivor (cs @ [c]) k = spec_survivor cs k"
  by (auto simp: spec_survivor_def find_snoc split: option.splits)

lemma spec_survivor_snoc_same:
  "spec_survivor (cs @ [c]) (changeKey c) =
     (case spec_survivor cs (changeKey c) of
        None \<Rightarrow> Some c
      | Some existing \<Rightarrow>
          if isLockFile (file' existing) \<and> \<not> isLockFile (file' c) then Some c else Some existing)"
  by (auto simp: spec_survivor_def find_snoc find_None_iff split: option.splits dest: find_Some_iff[THEN iffD1])

lemma foldl_dedupStep:
  "distinct (map fst (foldl dedupStep [] cs))
   \<and> map_of (foldl dedupStep [] cs) = spec_survivor cs"
proof (induction cs rule: rev_induct)
  case Nil
  show ?case by (simp add: spec_survivor_def fun_eq_iff)
next
  case (snoc c cs)
  let ?seen = "foldl dedupStep [] cs"
  have d: "distinct (map fst ?seen)" and m: "map_of ?seen = spec_survivor cs"
    using snoc.IH by simp_all
  have "distinct (map fst (dedupStep ?seen c))"
    using d by (simp add: dedupStep_def Let_def distinct_mapSet split: option.splits)
  moreover have "map_of (dedupStep ?seen c) k = spec_survivor (cs @ [c]) k" for k
  proof (cases "k = changeKey c")
    case True
    show ?thesis unfolding True spec_survivor_snoc_same
      by (simp add: dedupStep_def Let_def m map_of_mapSet split: option.splits)
  next
    case False
    then show ?thesis
      by (simp add: dedupStep_def Let_def m map_of_mapSet spec_survivor_snoc_other split: option.splits)
  qed
  ultimately show ?case by (simp add: fun_eq_iff)
qed

lemma startsWith_includes_str: "startsWith s sub \<Longrightarrow> includes_str s sub"
  by (cases s; cases sub) simp_all

lemma includes_str_tail: "includes_str s (c # sub) \<Longrightarrow> includes_str s sub"
proof (induction s)
  case Nil
  then show ?case by simp
next
  case (Cons a s)
  from Cons.prems consider "startsWith (a # s) (c # sub)" | "includes_str s (c # sub)"
    by auto
  then show ?case
  proof cases
    case 1
    then have "startsWith s sub" by simp
    then have "includes_str s sub" by (rule startsWith_includes_str)
    then show ?thesis by simp
  next
    case 2
    then have "includes_str s sub" by (rule Cons.IH)
    then show ?thesis by simp
  qed
qed

lemma isLockFile_iff: "isLockFile f \<longleftrightarrow> includes_str f ''lock''"
  unfolding isLockFile_def using includes_str_tail[of f "CHR ''.''" "''lock''"] by auto

lemma seen_entries:
  assumes "(k, d) \<in> set (foldl dedupStep [] cs)"
  shows "spec_survivor cs k = Some d" and "changeKey d = k"
proof -
  have "distinct (map fst (foldl dedupStep [] cs))"
    using foldl_dedupStep[of cs] by simp
  then have "map_of (foldl dedupStep [] cs) k = Some d"
    using assms by (rule map_of_is_SomeI)
  moreover have "map_of (foldl dedupStep [] cs) = spec_survivor cs"
    using foldl_dedupStep[of cs] by simp
  ultimately show s: "spec_survivor cs k = Some d"
    by simp
  from s show "changeKey d = k"
    by (auto simp: spec_survivor_def find_Some_iff split: option.splits)
qed

lemma deduplicateChanges_keys:
  "map changeKey (deduplicateChanges cs) = map fst (foldl dedupStep [] cs)"
  unfolding deduplicateChanges_def map_map
  by (rule map_cong[OF refl]) (auto dest: seen_entries(2))

lemma deduplicateChanges_distinct:
  "distinct (map (\<lambda>c. (ecosystem c, name c)) (deduplicateChanges cs))"
proof -
  have "distinct (map changeKey (deduplicateChanges cs))"
    using foldl_dedupStep[of cs] by (simp add: deduplicateChanges_keys)
  then have "distinct (deduplicateChanges cs)"
    and "inj_on changeKey (set (deduplicateChanges cs))"
    by (simp_all add: distinct_map)
  moreover from this(2) have "inj_on (\<lambda>c. (ecosystem c, name c)) (set (deduplicateChanges cs))"
    by (auto simp: inj_on_def changeKey_inj)
  ultimately show ?thesis by (simp add: distinct_map)
qed

lemma deduplicateChanges_covers:
  assumes "c \<in> set cs"
  shows "\<exists>d \<in> set (deduplicateChanges cs). ecosystem d = ecosystem c \<and> name d = name c"
proof -
  have "find (\<lambda>x. changeKey x = changeKey c) cs \<noteq> None"
    using assms by (auto simp: find_None_iff)
  then have "spec_survivor cs (changeKey c) \<noteq> None"
    by (auto simp: spec_survivor_def split: option.splits)
  then obtain d where "map_of (foldl dedupStep [] cs) (changeKey c) = Some d"
    using foldl_dedupStep[of cs] by auto
  then have in_seen: "(changeKey c, d) \<in> set (foldl dedupStep [] cs)"
    by (rule map_of_SomeD)
  then have "d \<in> set (deduplicateChanges cs)"
    by (force simp: deduplicateChanges_def)
  moreover have "changeKey d = changeKey c" using seen_entries(2)[OF in_seen] .
  ultimately show ?thesis by (auto simp: changeKey_inj)
qed

lemma deduplicateChanges_survivor:
  assumes "d \<in> set (deduplicateChanges cs)"
  shows "case find (\<lambda>c. ecosystem c = ecosystem d \<and> name c = name d \<and> \<not> isLockFile (file' c)) cs of
           Some m \<Rightarrow> d = m
         | None \<Rightarrow> find (\<lambda>c. ecosystem c = ecosystem d \<and> name c = name d) cs = Some d"
proof -
  obtain k where in_seen: "(k, d) \<in> set (foldl dedupStep [] cs)"
    using assms by (auto simp: deduplicateChanges_def)
  have "spec_survivor cs (changeKey d) = Some d"
    using seen_entries[OF in_seen] by simp
  then show ?thesis
    by (simp add: spec_survivor_def changeKey_inj conj_assoc split: option.splits)
qed

lemma deduplicateChanges_pair:
  assumes "ecosystem l = ecosystem m" and "name l = name m"
    and "\<not> isLockFile (file' m)" and "isLockFile (file' l)"
  shows "deduplicateChanges [m, l] = [m]" and "deduplicateChanges [l, m] = [m]"
proof -
  have k: "changeKey l = changeKey m" using assms(1,2) by (simp add: changeKey_inj)
  show "deduplicateChanges [m, l] = [m]"
    using assms(3,4) by (simp add: deduplicateChanges_def dedupStep_def k)
  show "deduplicateChanges [l, m] = [m]"
    using assms(3,4) by (simp add: deduplicateChanges_def dedupStep_def k)
qed

text \<open>
  C2: the result of \<open>deduplicateChanges\<close> has at most one change per pair of ecosystem
  and name, and one for every pair of the input; the change kept for a pair is the first
  input change of that pair whose file path does not contain \<open>lock\<close>, and the first
  input change of that pair when every one of them contains \<open>lock\<close>. Of a manifest
  change and a lock-file change for the same package, in either order, exactly the
  manifest change is kept.
\<close>

theorem deduplicateChanges_reconciles:
  "distinct (map (\<lambda>c. (ecosystem c, name c)) (deduplicateChanges cs))
   \<and> (\<forall>c \<in> set cs. \<exists>d \<in> set (deduplicateChanges cs). ecosystem d = ecosystem c \<and> name d = name c)
   \<and> (\<forall>d \<in> set (deduplicateChanges cs).
         d \<in> set cs \<and>
         (case find (\<lambda>c. ecosystem c = ecosystem d \<and> name c = name d \<and> \<not> includes_str (file' c) ''lock'') cs of
            Some m \<Rightarrow> d = m
          | None \<Rightarrow> find (\<lambda>c. ecosystem c = ecosystem d \<and> name c = name d) cs = Some d))
   \<and> (ecosystem l = ecosystem m \<and> name l = name m
        \<and> \<not> includes_str (file' m) ''lock'' \<and> includes_str (file' l) ''lock''
        \<longrightarrow> deduplicateChanges [m, l] = [m] \<and> deduplicateChanges [l, m] = [m])"
proof (intro conjI ballI impI)
  show "distinct (map (\<lambda>c. (ecosystem c, name c)) (deduplicateChanges cs))"
    by (rule deduplicateChanges_distinct)
next
  fix c assume "c \<in> set cs"
  then show "\<exists>d \<in> set (deduplicateChanges cs). ecosystem d = ecosystem c \<and> name d = name c"
    by (rule deduplicateChanges_covers)
next
  fix d assume d: "d \<in> set (deduplicateChanges cs)"
  from deduplicateChanges_survivor[OF d]
  show s: "case find (\<lambda>c. ecosystem c = ecosystem d \<and> name c = name d \<and> \<not> includes_str (file' c) ''lock'') cs of
            Some m \<Rightarrow> d = m
          | None \<Rightarrow> find (\<lambda>c. ecosystem c = ecosystem d \<and> name c = name d) cs = Some d"
    by (simp add: isLockFile_iff)
  then show "d \<in> set cs"
    by (auto simp: find_Some_iff split: option.splits)
next
  assume a: "ecosystem l = ecosystem m \<and> name l = name m
        \<and> \<not> includes_str (file' m) ''lock'' \<and> includes_str (file' l) ''lock''"
  then show "deduplicateChanges [m, l] = [m]"
    by (intro deduplicateChanges_pair) (simp_all add: isLockFile_iff)
next
  assume a: "ecosystem l = ecosystem m \<and> name l = name m
        \<and> \<not> includes_str (file' m) ''lock'' \<and> includes_str (file' l) ''lock''"
  then show "deduplicateChanges [l, m] = [m]"
    by (intro deduplicateChanges_pair) (simp_all add: isLockFile_iff)
qed

text \<open>C2 on the changes of \<open>foo\<close> from \<open>package.json\<close> and
  \<open>package-lock.json\<close>.\<close>

theorem deduplicateChanges_reconciles_witness:
  "\<not> includes_str (file' foo_manifest) ''lock'' \<and> includes_str (file' foo_lock) ''lock''
   \<and> deduplicateChanges [foo_manifest, foo_lock] = [foo_manifest]
   \<and> deduplicateChanges [foo_lock, foo_manifest] = [foo_manifest]
   \<and> foo_manifest \<in> set [foo_lock, foo_manifest]
   \<and> find (\<lambda>c. ecosystem c = Node \<and> name c = ''foo'' \<and> \<not> includes_str (file' c) ''lock'')
        [foo_lock, foo_manifest] = Some foo_manifest"
  using deduplicateChanges_reconciles[of "[foo_lock, foo_manifest]" foo_lock foo_manifest]
  by (simp add: foo_manifest_def foo_lock_def)

subsection \<open>Depth guards\<close>

lemma checkJsonDepth_unmatched_close:
  "isCloseBracket c \<Longrightarrow> \<not> checkJsonDepth (c # cs) maxDepth"
  by (auto simp: checkJsonDepth_def isCloseBracket_def isOpenBracket_def)

lemma checkNestingDepthRust_unmatched_close:
  "isCloseBracket c \<Longrightarrow> \<not> checkNestingDepthRust (c # cs) maxDepth"
  by (auto simp: checkNestingDepthRust_def isCloseBracket_def isOpenBracket_def)

lemma checkNestingDepth_unmatched_close:
  "isCloseBracket c \<Longrightarrow> checkNestingDepth (c # cs) maxDepth = nestingLoop (-1) maxDepth cs"
  by (auto simp: checkNestingDepth_def isCloseBracket_def isOpenBracket_def)

text \<open>
  C6 on the guard of python.ts: \<open>checkNestingDepth\<close> accepts a closing bracket that
  has no opening one, and it counts the brackets inside a string literal, so that a
  string of 21 opening brackets is rejected. \<open>checkJsonDepth\<close> of node.ts and
  \<open>checkNestingDepth\<close> of rust.ts reject the first input and accept the second.
\<close>

theorem checkNestingDepth_misses:
  "checkNestingDepth '']'' MAX_NESTING_DEPTH = True
   \<and> checkJsonDepth '']'' MAX_JSON_DEPTH = False
   \<and> checkNestingDepthRust '']'' MAX_NESTING_DEPTH = False
   \<and> checkNestingDepth (''k = '' @ [CHR 0x22] @ ''[[[[[[[[[[[[[[[[[[[[['' @ [CHR 0x22])
         MAX_NESTING_DEPTH = False
   \<and> checkNestingDepthRust (''k = '' @ [CHR 0x22] @ ''[[[[[[[[[[[[[[[[[[[[['' @ [CHR 0x22])
         MAX_NESTING_DEPTH = True
   \<and> checkJsonDepth (''{'' @ [CHR 0x22] @ ''k'' @ [CHR 0x22] @ '': '' @ [CHR 0x22]
         @ ''[[[[[[[[[[[[[[[[[[[[['' @ [CHR 0x22] @ ''}'') MAX_JSON_DEPTH = True"
  by (simp add: checkNestingDepth_def checkJsonDepth_def checkNestingDepthRust_def
      MAX_NESTING_DEPTH_def MAX_JSON_DEPTH_def isOpenBracket_def isCloseBracket_def)

lemma guard_rejects_parsePackageJson:
  "\<not> checkJsonDepth content MAX_JSON_DEPTH \<Longrightarrow> parsePackageJson JSON_parse content = []"
  by (simp add: parsePackageJson_def)

lemma guard_rejects_python:
  assumes "\<not> checkNestingDepth content MAX_NESTING_DEPTH"
  shows "parsePyprojectToml toml_parse content = []"
    and "parsePipfile toml_parse content = []"
    and "parsePoetryLock toml_parse content = []"
  using assms
  by (simp_all add: parsePyprojectToml_def parsePipfile_def parsePoetryLock_def safeTomlParse_def)

lemma guard_rejects_rust:
  assumes "\<not> checkNestingDepthRust content MAX_NESTING_DEPTH"
  shows "parseCargoToml toml_parse content = []"
    and "parseCargoLock toml_parse content = []"
  using assms
  by (simp_all add: parseCargoToml_def parseCargoLock_def safeTomlParseRust_def)

subsection \<open>Lower-case names in the Python parsers\<close>

lemma upper_lower_disjoint: "l \<in> set lowerCaseChars \<Longrightarrow> l \<notin> set upperCaseChars"
  unfolding lowerCaseChars_def upperCaseChars_def by auto

lemma toLowerChar_idem: "toLowerChar (toLowerChar c) = toLowerChar c"
proof (cases "map_of (zip upperCaseChars lowerCaseChars) c")
  case None
  then show ?thesis by (simp add: toLowerChar_def)
next
  case (Some l)
  then have "(c, l) \<in> set (zip upperCaseChars lowerCaseChars)" by (rule map_of_SomeD)
  then have "l \<in> set lowerCaseChars" by (rule set_zip_rightD)
  then have "l \<notin> set upperCaseChars" by (rule upper_lower_disjoint)
  then have "map_of (zip upperCaseChars lowerCaseChars) l = None"
    by (auto simp: map_of_eq_None_iff dest: set_zip_leftD)
  then show ?thesis using Some by (simp add: toLowerChar_def)
qed

lemma toLowerCase_idem: "toLowerCase (toLowerCase s) = toLowerCase s"
  by (simp add: toLowerCase_def toLowerChar_idem)

lemma lowercaseKeys_Nil: "lowercaseKeys []"
  by (simp add: lowercaseKeys_def)

lemma lowercaseKeys_mapSet:
  "lowercaseKeys deps \<Longrightarrow> lowercaseKeys (mapSet deps (toLowerCase nm) v)"
  by (auto simp: lowercaseKeys_def keys_mapSet list_all_iff toLowerCase_idem)

lemma requirementLine_lowercase:
  "lowercaseKeys deps \<Longrightarrow> requirementLine deps line = Some deps' \<Longrightarrow> lowercaseKeys deps'"
  by (auto simp: requirementLine_def Let_def lowercaseKeys_mapSet split: if_splits option.splits)

lemma requirementLines_lowercase:
  "lowercaseKeys deps \<Longrightarrow> requirementLines deps lines = Some deps' \<Longrightarrow> lowercaseKeys deps'"
proof (induction lines arbitrary: deps)
  case Nil
  then show ?case by simp
next
  case (Cons line lines)
  from Cons.prems(2) obtain d where d: "requirementLine deps line = Some d"
    and r: "requirementLines d lines = Some deps'"
    by (auto split: option.splits)
  from Cons.prems(1) d have "lowercaseKeys d" by (rule requirementLine_lowercase)
  then show ?case using r by (rule Cons.IH)
qed

lemma pep621Loop_lowercase:
  "lowercaseKeys deps \<Longrightarrow> pep621Loop (deps, n) xs = Some (deps', n') \<Longrightarrow> lowercaseKeys deps'"
proof (induction xs arbitrary: deps n)
  case Nil
  then show ?case by simp
next
  case (Cons x xs)
  show ?case
  proof (cases "n \<ge> MAX_DEPENDENCIES")
    case True
    with Cons.prems show ?thesis by simp
  next
    case False
    with Cons.prems(2) obtain s where x: "x = JStr s"
      by (cases x) auto
    show ?thesis
    proof (cases "matchStart pep621Re s")
      case None
      with Cons.prems False x show ?thesis by (auto intro: Cons.IH)
    next
      case (Some m)
      with Cons.prems(2) False x obtain g1 where g1: "m 1 = Some g1"
        and r: "pep621Loop (mapSet deps (toLowerCase g1) (orStar (captured (m 3))), n + 1) xs
                  = Some (deps', n')"
        by (auto split: option.splits)
      from Cons.prems(1) have "lowercaseKeys (mapSet deps (toLowerCase g1) (orStar (captured (m 3))))"
        by (rule lowercaseKeys_mapSet)
      then show ?thesis using r by (rule Cons.IH)
    qed
  qed
qed

lemma optionalGroupsLoop_lowercase:
  "lowercaseKeys (fst acc) \<Longrightarrow> optionalGroupsLoop acc gs = Some acc' \<Longrightarrow> lowercaseKeys (fst acc')"
proof (induction gs arbitrary: acc)
  case Nil
  then show ?case by simp
next
  case (Cons g gs)
  from Cons.prems(2) obtain ds mid where "iterate g = Some ds"
    and m: "pep621Loop acc ds = Some mid" and r: "optionalGroupsLoop mid gs = Some acc'"
    by (auto split: option.splits)
  from Cons.prems(1) m have "lowercaseKeys (fst mid)"
    using pep621Loop_lowercase[of "fst acc" "snd acc" ds "fst mid" "snd mid"] by simp
  then show ?case using r by (rule Cons.IH)
qed

lemma lowercasedEntries_lowercase:
  "lowercaseKeys deps \<Longrightarrow> lowercasedEntries deps es = Some deps' \<Longrightarrow> lowercaseKeys deps'"
proof (induction deps es rule: lowercasedEntries.induct)
  case (1 deps)
  then show ?case by simp
next
  case (2 deps nm v es)
  from "2.prems"(2) obtain version where ver: "entryVersion v = Some version"
    and r: "lowercasedEntries (mapSet deps (toLowerCase nm) version) es = Some deps'"
    by (auto split: option.splits)
  from "2.prems"(1) have "lowercaseKeys (mapSet deps (toLowerCase nm) version)"
    by (rule lowercaseKeys_mapSet)
  with "2.IH"[OF ver] r show ?case by simp
qed

lemma poetryEntries_lowercase:
  "lowercaseKeys deps \<Longrightarrow> poetryEntries deps es = Some deps' \<Longrightarrow> lowercaseKeys deps'"
proof (induction deps es rule: poetryEntries.induct)
  case (1 deps)
  then show ?case by simp
next
  case (2 deps nm v es)
  show ?case
  proof (cases "toLowerCase nm = ''python''")
    case True
    with 2 show ?thesis by simp
  next
    case False
    with "2.prems"(2) obtain version where ver: "entryVersion v = Some version"
      and r: "poetryEntries (mapSet deps (toLowerCase nm) version) es = Some deps'"
      by (auto split: option.splits)
    from "2.prems"(1) have "lowercaseKeys (mapSet deps (toLowerCase nm) version)"
      by (rule lowercaseKeys_mapSet)
    with "2.IH"(2)[OF False ver] r show ?thesis by simp
  qed
qed

lemma lockPackages_lowercase:
  "lowercaseKeys (fst acc) \<Longrightarrow> lowercaseKeys (snd acc) \<Longrightarrow> lockPackages acc pkgs = Some acc'
     \<Longrightarrow> lowercaseKeys (fst acc') \<and> lowercaseKeys (snd acc')"
proof (induction pkgs arbitrary: acc)
  case Nil
  then show ?case by (cases acc) auto
next
  case (Cons pkg pkgs)
  obtain p d where acc: "acc = (p, d)" by (cases acc)
  from Cons.prems(3) obtain category s version where
    "getProp pkg ''category'' = Some category" "getProp pkg ''name'' = Some (JStr s)"
    "getProp pkg ''version'' = Some version"
    and r: "lockPackages (if category = JStr ''dev'' then (p, mapSet d (toLowerCase s) version)
                          else (mapSet p (toLowerCase s) version, d)) pkgs = Some acc'"
    unfolding acc by (auto split: option.splits jsval.splits if_splits)
  show ?case
  proof (rule Cons.IH[OF _ _ r])
    show "lowercaseKeys (fst (if category = JStr ''dev'' then (p, mapSet d (toLowerCase s) version)
                          else (mapSet p (toLowerCase s) version, d)))"
      using Cons.prems(1) by (simp add: acc lowercaseKeys_mapSet)
    show "lowercaseKeys (snd (if category = JStr ''dev'' then (p, mapSet d (toLowerCase s) version)
                          else (mapSet p (toLowerCase s) version, d)))"
      using Cons.prems(2) by (simp add: acc lowercaseKeys_mapSet)
  qed
qed


lemma pushIfAny_lowercase:
  "lowercaseKeys deps \<Longrightarrow> g \<in> set (pushIfAny deps dt) \<Longrightarrow> lowercaseKeys (dependencies g)"
  by (auto simp: pushIfAny_def split: if_splits)

lemma lowercasedSection_lowercase:
  assumes "lowercasedSection section dt = Some r" and "g \<in> set r"
  shows "lowercaseKeys (dependencies g)"
proof (cases "truthy section")
  case False
  with assms show ?thesis by (simp add: lowercasedSection_def)
next
  case True
  with assms(1) obtain es deps where "lowercasedEntries [] es = Some deps"
    and r: "r = pushIfAny deps dt"
    by (auto simp: lowercasedSection_def split: option.splits)
  then have "lowercaseKeys deps"
    using lowercasedEntries_lowercase[OF lowercaseKeys_Nil] by blast
  then show ?thesis using assms(2) unfolding r by (rule pushIfAny_lowercase)
qed

lemma poetrySection_lowercase:
  assumes "poetrySection section = Some r" and "g \<in> set r"
  shows "lowercaseKeys (dependencies g)"
proof (cases "truthy section")
  case False
  with assms show ?thesis by (simp add: poetrySection_def)
next
  case True
  with assms(1) obtain es deps where "poetryEntries [] es = Some deps"
    and r: "r = pushIfAny deps Production"
    by (auto simp: poetrySection_def split: option.splits)
  then have "lowercaseKeys deps"
    using poetryEntries_lowercase[OF lowercaseKeys_Nil] by blast
  then show ?thesis using assms(2) unfolding r by (rule pushIfAny_lowercase)
qed

lemma poetryGroups_lowercase:
  "poetryGroups gs = Some r \<Longrightarrow> g \<in> set r \<Longrightarrow> lowercaseKeys (dependencies g)"
proof (induction gs arbitrary: r)
  case Nil
  then show ?case by simp
next
  case (Cons e gs)
  obtain groupName grp where e: "e = (groupName, grp)" by (cases e)
  from Cons.prems(1) obtain gdeps dt r1 rs where
    s: "lowercasedSection gdeps dt = Some r1" and t: "poetryGroups gs = Some rs"
    and r: "r = r1 @ rs"
    unfolding e by (auto split: option.splits)
  from Cons.prems(2) consider "g \<in> set r1" | "g \<in> set rs" unfolding r by auto
  then show ?case
  proof cases
    case 1
    with s show ?thesis by (rule lowercasedSection_lowercase)
  next
    case 2
    with t show ?thesis by (rule Cons.IH)
  qed
qed

lemma pyprojectBody_lowercase:
  assumes "pyprojectBody pyproject = Some results" and "g \<in> set results"
  shows "lowercaseKeys (dependencies g)"
proof -
  from assms(1) obtain project where "getProp pyproject ''project'' = Some project"
    by (auto simp: pyprojectBody_def split: option.splits)
  note b = assms(1)[unfolded pyprojectBody_def this option.case]
  let ?ds = "optChain project ''dependencies''"
  let ?od = "optChain project ''optional-dependencies''"
  let ?first = "if truthy ?ds
              then (case iterate ?ds of
                      None \<Rightarrow> None
                    | Some xs \<Rightarrow>
                        (case pep621Loop ([], 0) xs of
                           None \<Rightarrow> None
                         | Some (deps, n) \<Rightarrow> Some (pushIfAny deps Production, n)))
              else Some ([], 0)"
  from b obtain r1 t1 where first: "?first = Some (r1, t1)"
    by (auto simp: Let_def split: option.splits)
  have r1: "lowercaseKeys (dependencies x)" if "x \<in> set r1" for x
  proof (cases "truthy ?ds")
    case False
    with first that show ?thesis by simp
  next
    case True
    with first obtain xs deps where "pep621Loop ([], 0) xs = Some (deps, t1)"
      and "r1 = pushIfAny deps Production"
      by (auto split: option.splits)
    then show ?thesis using that pep621Loop_lowercase[OF lowercaseKeys_Nil]
      by (blast intro: pushIfAny_lowercase)
  qed
  let ?second = "if truthy ?od
              then (case objectValues ?od of
                      None \<Rightarrow> None
                    | Some groups \<Rightarrow>
                        (case optionalGroupsLoop ([], t1) groups of
                           None \<Rightarrow> None
                         | Some (devDeps, n) \<Rightarrow> Some (pushIfAny devDeps Development)))
              else Some []"
  from b first obtain r2 where second: "?second = Some r2"
    by (auto simp: Let_def split: option.splits)
  have r2: "lowercaseKeys (dependencies x)" if "x \<in> set r2" for x
  proof (cases "truthy ?od")
    case False
    with second that show ?thesis by simp
  next
    case True
    with second obtain groups devDeps n where l: "optionalGroupsLoop ([], t1) groups = Some (devDeps, n)"
      and "r2 = pushIfAny devDeps Development"
      by (auto split: option.splits)
    moreover have "lowercaseKeys devDeps"
      using optionalGroupsLoop_lowercase[OF _ l] by (simp add: lowercaseKeys_Nil)
    ultimately show ?thesis using that by (blast intro: pushIfAny_lowercase)
  qed
  from b first second obtain tool where tool: "getProp pyproject ''tool'' = Some tool"
    by (auto simp: Let_def split: option.splits)
  let ?poetry = "optChain tool ''poetry''"
  show ?thesis
  proof (cases "truthy ?poetry")
    case False
    with b first second tool have "results = r1 @ r2"
      by (simp add: Let_def)
    with assms(2) r1 r2 show ?thesis by auto
  next
    case True
    with b first second tool obtain pd r3 dd r4 grp r5 where
      "poetrySection pd = Some r3" "lowercasedSection dd Development = Some r4"
      and g5: "(if truthy grp
                then (case objectEntries grp of None \<Rightarrow> None | Some gs \<Rightarrow> poetryGroups gs)
                else Some []) = Some r5"
      and res: "results = r1 @ r2 @ r3 @ r4 @ r5"
      by (auto simp: Let_def split: option.splits)
    have r3: "lowercaseKeys (dependencies x)" if "x \<in> set r3" for x
      using \<open>poetrySection pd = Some r3\<close> that by (rule poetrySection_lowercase)
    have r4: "lowercaseKeys (dependencies x)" if "x \<in> set r4" for x
      using \<open>lowercasedSection dd Development = Some r4\<close> that by (rule lowercasedSection_lowercase)
    have r5: "lowercaseKeys (dependencies x)" if "x \<in> set r5" for x
      using g5 that by (auto split: if_splits option.splits intro: poetryGroups_lowercase)
    from assms(2) r1 r2 r3 r4 r5 show ?thesis unfolding res by auto
  qed
qed

lemma pipfileBody_lowercase:
  assumes "pipfileBody pipfile = Some results" and "g \<in> set results"
  shows "lowercaseKeys (dependencies g)"
proof -
  from assms(1) obtain packages r1 devPackages r2 where
    "lowercasedSection packages Production = Some r1"
    "lowercasedSection devPackages Development = Some r2"
    "results = r1 @ r2"
    by (auto simp: pipfileBody_def split: option.splits)
  with assms(2) show ?thesis by (auto intro: lowercasedSection_lowercase)
qed

lemma poetryLockBody_lowercase:
  assumes "poetryLockBody lock = Some results" and "g \<in> set results"
  shows "lowercaseKeys (dependencies g)"
proof -
  from assms(1) obtain package where p: "getProp lock ''package'' = Some package"
    by (cases "getProp lock ''package''") (simp_all add: poetryLockBody_def)
  show ?thesis
  proof (cases "truthy package")
    case False
    with assms p show ?thesis by (simp add: poetryLockBody_def pushIfAny_def)
  next
    case True
    from assms(1) p True obtain pkgs where i: "iterate package = Some pkgs"
      by (cases "iterate package") (simp_all add: poetryLockBody_def)
    from assms(1) p True i obtain prodDeps devDeps where
      l: "lockPackages ([], []) pkgs = Some (prodDeps, devDeps)"
      by (cases "lockPackages ([], []) pkgs") (auto simp: poetryLockBody_def)
    from assms(1) p True i l
    have res: "results = pushIfAny prodDeps Production @ pushIfAny devDeps Development"
      by (simp add: poetryLockBody_def)
    have "lowercaseKeys prodDeps \<and> lowercaseKeys devDeps"
      using lockPackages_lowercase[of "([], [])" pkgs "(prodDeps, devDeps)"] l
      by (simp add: lowercaseKeys_Nil)
    with assms(2) show ?thesis unfolding res by (auto intro: pushIfAny_lowercase)
  qed
qed

lemma parseRequirementsTxt_lowercase:
  assumes "g \<in> set (parseRequirementsTxt content)"
  shows "lowercaseKeys (dependencies g)"
proof (cases "requirementLines [] (split CHR 0x0A content)")
  case None
  with assms show ?thesis by (simp add: parseRequirementsTxt_def)
next
  case (Some deps)
  then have "lowercaseKeys deps"
    using requirementLines_lowercase[OF lowercaseKeys_Nil] by blast
  with assms Some show ?thesis
    by (auto simp: parseRequirementsTxt_def split: if_splits)
qed

text \<open>
  C10: in every group that \<open>parseRequirementsTxt\<close>, \<open>parsePyprojectToml\<close>,
  \<open>parsePipfile\<close> and \<open>parsePoetryLock\<close> return, for every input and whatever the
  TOML parser reads from it, every key of the map is its own lower-case form, and the
  keys are distinct.
\<close>

theorem python_parsers_lowercase_names:
  "(\<forall>g \<in> set (parseRequirementsTxt content). lowercaseKeys (dependencies g))
   \<and> (\<forall>g \<in> set (parsePyprojectToml toml_parse content). lowercaseKeys (dependencies g))
   \<and> (\<forall>g \<in> set (parsePipfile toml_parse content). lowercaseKeys (dependencies g))
   \<and> (\<forall>g \<in> set (parsePoetryLock toml_parse content). lowercaseKeys (dependencies g))"
proof (intro conjI ballI)
  fix g assume "g \<in> set (parseRequirementsTxt content)"
  then show "lowercaseKeys (dependencies g)" by (rule parseRequirementsTxt_lowercase)
next
  fix g assume "g \<in> set (parsePyprojectToml toml_parse content)"
  then show "lowercaseKeys (dependencies g)"
    by (auto simp: parsePyprojectToml_def split: option.splits if_splits
        intro: pyprojectBody_lowercase)
next
  fix g assume "g \<in> set (parsePipfile toml_parse content)"
  then show "lowercaseKeys (dependencies g)"
    by (auto simp: parsePipfile_def split: option.splits if_splits
        intro: pipfileBody_lowercase)
next
  fix g assume "g \<in> set (parsePoetryLock toml_parse content)"
  then show "lowercaseKeys (dependencies g)"
    by (auto simp: parsePoetryLock_def split: option.splits if_splits
        intro: poetryLockBody_lowercase)
qed


lemmas parser_eval_defs =
  parseRequirementsTxt_def requirementLine_def matchStart_def requirementRe_def nameRe_def
  extrasRe_def pep621Re_def Lit_def isNameChar_def isSpecifierChar_def isDot_def isWhiteSpace_def
  trim_def star.simps captured_def toLowerCase_def toLowerChar_def upperCaseChars_def
  lowerCaseChars_def checkNestingDepth_def MAX_NESTING_DEPTH_def isOpenBracket_def
  isCloseBracket_def safeTomlParse_def parsePipfile_def pipfileBody_def lowercasedSection_def
  entryVersion_def pushIfAny_def orStar_def

text \<open>C10 on a requirements file and a Pipfile that declare one package twice, in
  different case: one entry, under the lower-case name.\<close>

theorem python_parsers_lowercase_names_witness:
  "parseRequirementsTxt (''Django==4.0'' @ [CHR 0x0A] @ ''django==4.1'')
     = [\<lparr>dependencies = [(''django'', JStr ''4.1'')], dependencyType' = Production\<rparr>]
   \<and> lowercaseKeys [(''django'', JStr ''4.1'')]
   \<and> parsePipfile (\<lambda>_. Some pipfileDocument) pipfileText
     = [\<lparr>dependencies = [(''requests'', JStr ''==2.31.0'')], dependencyType' = Production\<rparr>]
   \<and> lowercaseKeys [(''requests'', JStr ''==2.31.0'')]"
proof -
  have r: "parseRequirementsTxt (''Django==4.0'' @ [CHR 0x0A] @ ''django==4.1'')
     = [\<lparr>dependencies = [(''django'', JStr ''4.1'')], dependencyType' = Production\<rparr>]"
    by (simp add: parser_eval_defs)
  have p: "parsePipfile (\<lambda>_. Some pipfileDocument) pipfileText
     = [\<lparr>dependencies = [(''requests'', JStr ''==2.31.0'')], dependencyType' = Production\<rparr>]"
    by (simp add: parser_eval_defs pipfileDocument_def pipfileText_def)
  from python_parsers_lowercase_names
         [of "''Django==4.0'' @ [CHR 0x0A] @ ''django==4.1''" "\<lambda>_. Some pipfileDocument"]
  have "lowercaseKeys [(''django'', JStr ''4.1'')]"
    unfolding r by simp
  moreover
  from python_parsers_lowercase_names[of pipfileText "\<lambda>_. Some pipfileDocument"]
  have "lowercaseKeys [(''requests'', JStr ''==2.31.0'')]"
    unfolding p by simp
  ultimately show ?thesis using r p by simp
qed


subsection \<open>The bound on the number of entries\<close>

lemma nestingLoop_no_brackets:
  "\<forall>c \<in> set s. \<not> isOpenBracket c \<and> \<not> isCloseBracket c \<Longrightarrow> nestingLoop d m s = True"
  by (induction s) auto

lemma mapSet_fresh: "k \<notin> fst ` set m \<Longrightarrow> mapSet m k v = m @ [(k, v)]"
  by (induction m) auto

lemma toLowerCase_replicate_a: "toLowerCase (replicate k CHR ''a'') = replicate k CHR ''a''"
  by (simp add: toLowerCase_def toLowerChar_def upperCaseChars_def lowerCaseChars_def)

lemma manyNames_distinct: "distinct (manyNames n)"
proof -
  have "inj_on (\<lambda>i. replicate (Suc i) CHR ''a'') A" for A :: "nat set"
    by (rule inj_onI) (metis length_replicate nat.inject)
  then show ?thesis by (simp add: manyNames_def distinct_map)
qed

lemma manyNames_plain:
  assumes "nm \<in> set (manyNames n)"
  shows "toLowerCase nm = nm \<and> nm \<noteq> ''python''"
proof -
  from assms obtain i where nm: "nm = replicate (Suc i) CHR ''a''"
    by (auto simp: manyNames_def)
  have "toLowerCase nm = nm" unfolding nm by (rule toLowerCase_replicate_a)
  moreover have "nm \<noteq> ''python''" unfolding nm by simp
  ultimately show ?thesis by simp
qed

lemma length_manyNames: "length (manyNames n) = n"
  by (simp add: manyNames_def)

lemma poetryEntries_fresh:
  assumes "distinct ns" and "set ns \<inter> fst ` set acc = {}"
    and "\<forall>nm \<in> set ns. toLowerCase nm = nm \<and> nm \<noteq> ''python''"
  shows "poetryEntries acc (map (\<lambda>nm. (nm, JStr v)) ns) = Some (acc @ map (\<lambda>nm. (nm, JStr v)) ns)"
  using assms
proof (induction ns arbitrary: acc)
  case Nil
  then show ?case by simp
next
  case (Cons nm ns)
  have low: "toLowerCase nm = nm" and np: "nm \<noteq> ''python''" using Cons.prems(3) by simp_all
  have fresh: "nm \<notin> fst ` set acc" using Cons.prems(2) by auto
  have step: "mapSet acc nm (JStr v) = acc @ [(nm, JStr v)]"
    using fresh by (simp add: mapSet_fresh)
  have "poetryEntries (acc @ [(nm, JStr v)]) (map (\<lambda>nm. (nm, JStr v)) ns)
          = Some ((acc @ [(nm, JStr v)]) @ map (\<lambda>nm. (nm, JStr v)) ns)"
  proof (rule Cons.IH)
    show "distinct ns" using Cons.prems(1) by simp
    show "set ns \<inter> fst ` set (acc @ [(nm, JStr v)]) = {}"
      using Cons.prems(1,2) by auto
    show "\<forall>nm \<in> set ns. toLowerCase nm = nm \<and> nm \<noteq> ''python''"
      using Cons.prems(3) by simp
  qed
  then show ?case by (simp add: low np step entryVersion_def)
qed

lemma poetryFile_passes_guard: "checkNestingDepth (poetryFile n) MAX_NESTING_DEPTH"
proof -
  have "\<forall>c \<in> set (concat (map (\<lambda>nm. nm @ '' = '' @ [CHR 0x22] @ ''1.0'' @ [CHR 0x22, CHR 0x0A])
                       (manyNames n))). \<not> isOpenBracket c \<and> \<not> isCloseBracket c"
    by (auto simp: manyNames_def isOpenBracket_def isCloseBracket_def)
  then show ?thesis
    by (simp add: checkNestingDepth_def poetryFile_def MAX_NESTING_DEPTH_def isOpenBracket_def
        isCloseBracket_def nestingLoop_no_brackets)
qed

lemma parsePyprojectToml_poetryDocument:
  assumes "n > 0"
  shows "parsePyprojectToml (\<lambda>_. Some (poetryDocument n)) (poetryFile n)
           = [\<lparr>dependencies = map (\<lambda>nm. (nm, JStr ''1.0'')) (manyNames n),
               dependencyType' = Production\<rparr>]"
proof -
  have e: "poetryEntries [] (map (\<lambda>nm. (nm, JStr ''1.0'')) (manyNames n))
             = Some (map (\<lambda>nm. (nm, JStr ''1.0'')) (manyNames n))"
    using poetryEntries_fresh[of "manyNames n" "[]" "''1.0''"] manyNames_distinct[of n]
      manyNames_plain[of _ n]
    by simp
  have s: "poetrySection (JObj (map (\<lambda>nm. (nm, JStr ''1.0'')) (manyNames n)))
             = Some [\<lparr>dependencies = map (\<lambda>nm. (nm, JStr ''1.0'')) (manyNames n),
                      dependencyType' = Production\<rparr>]"
    using assms by (simp add: poetrySection_def e pushIfAny_def length_manyNames)
  have "pyprojectBody (poetryDocument n)
          = Some [\<lparr>dependencies = map (\<lambda>nm. (nm, JStr ''1.0'')) (manyNames n),
                   dependencyType' = Production\<rparr>]"
    by (simp add: pyprojectBody_def poetryDocument_def optChain_def s lowercasedSection_def)
  then show ?thesis
    using poetryFile_passes_guard[of n]
    by (simp add: parsePyprojectToml_def safeTomlParse_def poetryDocument_def)
qed

text \<open>
  C8 at a \<open>pyproject.toml\<close> with 5001 entries in \<open>[tool.poetry.dependencies]\<close>:
  \<open>parsePyprojectToml\<close> returns one group with all 5001 entries; the counter
  \<open>totalDeps\<close> is not consulted in the Poetry sections.
\<close>

theorem parsePyprojectToml_poetry_uncapped:
  "parsePyprojectToml (\<lambda>_. Some (poetryDocument 5001)) (poetryFile 5001)
     = [\<lparr>dependencies = map (\<lambda>nm. (nm, JStr ''1.0'')) (manyNames 5001),
         dependencyType' = Production\<rparr>]
   \<and> length (map (\<lambda>nm. (nm, JStr ''1.0'')) (manyNames 5001)) = 5001
   \<and> MAX_DEPENDENCIES = 5000"
  by (simp add: parsePyprojectToml_poetryDocument length_manyNames MAX_DEPENDENCIES_def)

text \<open>What the counter does bound: the entries of the two PEP 621 sections.\<close>

lemma length_mapSet_le: "length (mapSet m k v) \<le> Suc (length m)"
  by (induction m) auto

lemma pep621Loop_capped:
  "pep621Loop (deps, n) xs = Some (deps', n') \<Longrightarrow> n \<le> MAX_DEPENDENCIES \<Longrightarrow> length deps \<le> n
     \<Longrightarrow> n' \<le> MAX_DEPENDENCIES \<and> length deps' \<le> n' \<and> n \<le> n'"
proof (induction xs arbitrary: deps n)
  case Nil
  then show ?case by simp
next
  case (Cons x xs)
  show ?case
  proof (cases "n \<ge> MAX_DEPENDENCIES")
    case True
    with Cons.prems show ?thesis by simp
  next
    case False
    with Cons.prems(1) obtain s where x: "x = JStr s"
      by (cases x) auto
    show ?thesis
    proof (cases "matchStart pep621Re s")
      case None
      with Cons.prems False x show ?thesis by (auto dest: Cons.IH)
    next
      case (Some m)
      with Cons.prems(1) False x obtain g1 where
        r: "pep621Loop (mapSet deps (toLowerCase g1) (orStar (captured (m 3))), n + 1) xs
                  = Some (deps', n')"
        by (auto split: option.splits)
      have "length (mapSet deps (toLowerCase g1) (orStar (captured (m 3)))) \<le> n + 1"
        using length_mapSet_le[of deps] Cons.prems(3) by (metis Suc_eq_plus1 Suc_le_mono le_trans)
      with Cons.IH[OF r] False show ?thesis by auto
    qed
  qed
qed

subsection \<open>Regular expressions on concrete texts\<close>

lemma allMatches_Nil:
  "allMatches r [] = (case rmatch r ([], Map.empty) of [] \<Rightarrow> [] | st # _ \<Rightarrow> [snd st])"
  by (subst allMatches.simps) (simp split: list.splits)

lemma rmatch_Str_Nil: "s \<noteq> [] \<Longrightarrow> rmatch (Str s) ([], caps) = []"
  by (cases s) (simp_all add: Str_def Lit_def)

lemma allMatches_Cons_no_match:
  "rmatch r (c # cs, Map.empty) = [] \<Longrightarrow> allMatches r (c # cs) = allMatches r cs"
  by (subst allMatches.simps) simp

lemmas line_eval =
  trim_def isWhiteSpace_def matchStart_def star.simps Str_def Lit_def isNameChar_def
  isSpecifierChar_def isDigit_def isWordChar_def isQuote_def isCoordChar_def isDot_def

subsection \<open>The loops of \<open>parseBuildGradle\<close> end\<close>

lemma star_suffix:
  assumes f: "\<And>st st'. st' \<in> set (f st) \<Longrightarrow> length (fst st') \<le> length (fst st)"
  shows "st' \<in> set (star f st) \<Longrightarrow> length (fst st') \<le> length (fst st)"
proof (induction f st arbitrary: st' rule: star.induct)
  case (1 f st)
  from "1.prems" have "st' = st \<or> (\<exists>m \<in> set (filter (\<lambda>x. length (fst x) < length (fst st)) (f st)).
      st' \<in> set (star f m))"
    by (subst (asm) star.simps) auto
  then show ?case
  proof
    assume "st' = st"
    then show ?thesis by simp
  next
    assume "\<exists>m \<in> set (filter (\<lambda>x. length (fst x) < length (fst st)) (f st)). st' \<in> set (star f m)"
    then obtain m where m: "m \<in> set (filter (\<lambda>x. length (fst x) < length (fst st)) (f st))"
      and s: "st' \<in> set (star f m)" by blast
    from "1.IH"[OF m s] m show ?thesis by simp
  qed
qed

lemma rmatch_suffix: "st' \<in> set (rmatch r st) \<Longrightarrow> length (fst st') \<le> length (fst st)"
proof (induction r arbitrary: st st')
  case (Chars P)
  then show ?case by (cases "fst st") (auto split: if_splits)
next
  case Eps
  then show ?case by simp
next
  case Eos
  then show ?case by (simp split: if_splits)
next
  case (Seq r1 r2)
  from Seq.prems obtain m where "m \<in> set (rmatch r1 st)" "st' \<in> set (rmatch r2 m)" by auto
  then show ?case using Seq.IH(1)[of m st] Seq.IH(2)[of st' m] by simp
next
  case (Alt r1 r2)
  from Alt.prems have "st' \<in> set (rmatch r1 st) \<or> st' \<in> set (rmatch r2 st)" by auto
  then show ?case using Alt.IH(1)[of st' st] Alt.IH(2)[of st' st] by blast
next
  case (Opt r)
  from Opt.prems have "st' \<in> set (rmatch r st) \<or> st' = st" by auto
  then show ?case using Opt.IH[of st' st] by blast
next
  case (Star r)
  then show ?case using star_suffix[of "rmatch r" st' st] by simp
next
  case (Plus r)
  from Plus.prems obtain m where m: "m \<in> set (rmatch r st)" and s: "st' \<in> set (star (rmatch r) m)"
    by auto
  have "length (fst st') \<le> length (fst m)"
    using star_suffix[of "rmatch r" st' m] Plus.IH s by simp
  with Plus.IH[OF m] show ?case by simp
next
  case (Group n r)
  from Group.prems obtain m where "m \<in> set (rmatch r st)" "fst st' = fst m" by auto
  then show ?case using Group.IH[of m st] by simp
qed

lemma rmatch_Str_consumes:
  "s \<noteq> [] \<Longrightarrow> st' \<in> set (rmatch (Str s) st) \<Longrightarrow> length (fst st') < length (fst st)"
proof -
  assume "s \<noteq> []" and a: "st' \<in> set (rmatch (Str s) st)"
  then obtain c cs where s: "s = c # cs" by (cases s) auto
  from a obtain m where m: "m \<in> set (rmatch (Lit c) st)" and r: "st' \<in> set (rmatch (Str cs) m)"
    by (auto simp: s Str_def)
  from m have "length (fst m) < length (fst st)"
    by (cases "fst st") (auto simp: Lit_def split: if_splits)
  with rmatch_suffix[OF r] show ?thesis by simp
qed

lemma gradle_keywords_consume:
  assumes "st' \<in> set (rmatch gradleProdKeyword st) \<or> st' \<in> set (rmatch gradleTestKeyword st)"
  shows "length (fst st') < length (fst st)"
  using assms
  by (auto simp: gradleProdKeyword_def gradleTestKeyword_def dest!: rmatch_Str_consumes[rotated])

lemma Seq_first_consumes:
  assumes "\<And>m. m \<in> set (rmatch r1 st) \<Longrightarrow> length (fst m) < length (fst st)"
    and "st' \<in> set (rmatch (Seq r1 r2) st)"
  shows "length (fst st') < length (fst st)"
proof -
  from assms(2) obtain m where m: "m \<in> set (rmatch r1 st)" and r: "st' \<in> set (rmatch r2 m)"
    by auto
  from assms(1)[OF m] rmatch_suffix[OF r] show ?thesis by simp
qed

text \<open>A match of the four \<open>build.gradle\<close> patterns is never empty: each iteration of
  the four \<open>while\<close> loops of \<open>parseBuildGradle\<close> advances, so the loops end and
  \<open>allMatches\<close> lists every match that they visit.\<close>

lemma gradle_patterns_consume:
  assumes "keyword = gradleProdKeyword \<or> keyword = gradleTestKeyword"
    and "st' \<in> set (rmatch (gradlePattern keyword) st) \<or> st' \<in> set (rmatch (kotlinPattern keyword) st)"
  shows "length (fst st') < length (fst st)"
proof -
  have k: "\<And>m. m \<in> set (rmatch keyword st) \<Longrightarrow> length (fst m) < length (fst st)"
    using assms(1) gradle_keywords_consume by blast
  from assms(2) show ?thesis
  proof
    assume "st' \<in> set (rmatch (gradlePattern keyword) st)"
    then show ?thesis unfolding gradlePattern_def using k by (rule Seq_first_consumes[rotated])
  next
    assume "st' \<in> set (rmatch (kotlinPattern keyword) st)"
    then show ?thesis unfolding kotlinPattern_def using k by (rule Seq_first_consumes[rotated])
  qed
qed

subsection \<open>A loader that fails, a guard that rejects, a body that throws\<close>

lemma parsePackageJson_fails:
  "JSON_parse content = None \<or> \<not> checkJsonDepth content MAX_JSON_DEPTH
      \<or> (\<exists>pkg. JSON_parse content = Some pkg \<and> packageJsonBody pkg = None)
    \<Longrightarrow> parsePackageJson JSON_parse content = []"
  by (auto simp: parsePackageJson_def)

lemma parsePackageLockJson_fails:
  "JSON_parse content = None
      \<or> (\<exists>lock. JSON_parse content = Some lock \<and> packageLockBody lock = None)
    \<Longrightarrow> parsePackageLockJson JSON_parse content = []"
  by (auto simp: parsePackageLockJson_def)

lemma parsePnpmLock_fails:
  "yaml_load content = None
      \<or> (\<exists>lock. yaml_load content = Some lock \<and> pnpmLockBody lock = None)
    \<Longrightarrow> parsePnpmLock yaml_load content = []"
  by (auto simp: parsePnpmLock_def)

lemma parsePyprojectToml_fails:
  "toml_parse content = None \<or> \<not> checkNestingDepth content MAX_NESTING_DEPTH
      \<or> (\<exists>doc. toml_parse content = Some doc \<and> (\<not> truthy doc \<or> pyprojectBody doc = None))
    \<Longrightarrow> parsePyprojectToml toml_parse content = []"
  by (auto simp: parsePyprojectToml_def safeTomlParse_def)

lemma parsePipfile_fails:
  "toml_parse content = None \<or> \<not> checkNestingDepth content MAX_NESTING_DEPTH
      \<or> (\<exists>doc. toml_parse content = Some doc \<and> (\<not> truthy doc \<or> pipfileBody doc = None))
    \<Longrightarrow> parsePipfile toml_parse content = []"
  by (auto simp: parsePipfile_def safeTomlParse_def)

lemma parsePoetryLock_fails:
  "toml_parse content = None \<or> \<not> checkNestingDepth content MAX_NESTING_DEPTH
      \<or> (\<exists>doc. toml_parse content = Some doc \<and> (\<not> truthy doc \<or> poetryLockBody doc = None))
    \<Longrightarrow> parsePoetryLock toml_parse content = []"
  by (auto simp: parsePoetryLock_def safeTomlParse_def)

lemma parseCargoToml_fails:
  "toml_parse content = None \<or> \<not> checkNestingDepthRust content MAX_NESTING_DEPTH
      \<or> (\<exists>doc. toml_parse content = Some doc \<and> (\<not> truthy doc \<or> cargoTomlBody doc = None))
    \<Longrightarrow> parseCargoToml toml_parse content = []"
  by (auto simp: parseCargoToml_def safeTomlParseRust_def)

lemma parseCargoLock_fails:
  "toml_parse content = None \<or> \<not> checkNestingDepthRust content MAX_NESTING_DEPTH
      \<or> (\<exists>doc. toml_parse content = Some doc \<and> (\<not> truthy doc \<or> cargoLockBody doc = None))
    \<Longrightarrow> parseCargoLock toml_parse content = []"
  by (auto simp: parseCargoLock_def safeTomlParseRust_def)

lemma parsePomXml_fails:
  assumes "parseString content = None
      \<or> (\<exists>doc. parseString content = Some doc
            \<and> (\<not> truthy doc \<or> \<not> truthy (optChain doc ''project'')
                \<or> pomBody textOf (optChain doc ''project'') = None))"
  shows "parsePomXml textOf parseString content = []"
proof (cases "parseString content")
  case None
  then show ?thesis by (simp add: parsePomXml_def)
next
  case (Some doc)
  show ?thesis
  proof (cases "getProp doc ''project''")
    case None
    with Some show ?thesis by (simp add: parsePomXml_def)
  next
    case project: (Some project)
    then have "optChain doc ''project'' = project" by (simp add: optChain_def)
    with assms Some have "\<not> truthy doc \<or> \<not> truthy project \<or> pomBody textOf project = None"
      by simp
    with Some project show ?thesis by (auto simp: parsePomXml_def)
  qed
qed

lemma parseCsproj_fails:
  "parseString content = None
      \<or> (\<exists>doc. parseString content = Some doc \<and> (\<not> truthy doc \<or> csprojBody doc = None))
    \<Longrightarrow> parseCsproj parseString content = [] \<and> parsePackagesConfig parseString content = []"
  by (auto simp: parseCsproj_def parsePackagesConfig_def)

subsection \<open>A loaded document that is not an object\<close>

lemma not_object_cases:
  assumes "\<not> isObject doc"
  obtains "doc = JUndefined" | "doc = JNull" | b where "doc = JBool b" | n where "doc = JNum n"
    | s where "doc = JStr s" | xs where "doc = JArr xs"
  using assms by (cases doc) (auto simp: isObject_def)

lemma getProp_not_object:
  "\<not> isObject doc \<Longrightarrow> getProp doc k = None \<or> getProp doc k = Some JUndefined"
  by (erule not_object_cases) auto

lemma parsePackageJson_not_object:
  "JSON_parse content = Some doc \<Longrightarrow> \<not> isObject doc \<Longrightarrow> parsePackageJson JSON_parse content = []"
  by (erule not_object_cases)
     (auto simp: parsePackageJson_def packageJsonBody_def packageJsonSection_def)

lemma parsePackageLockJson_not_object:
  "JSON_parse content = Some doc \<Longrightarrow> \<not> isObject doc \<Longrightarrow> parsePackageLockJson JSON_parse content = []"
  by (erule not_object_cases)
     (auto simp: parsePackageLockJson_def packageLockBody_def prodAndDev_def pushIfAny_def)

lemma parsePnpmLock_not_object:
  "yaml_load content = Some doc \<Longrightarrow> \<not> isObject doc \<Longrightarrow> parsePnpmLock yaml_load content = []"
  by (erule not_object_cases)
     (auto simp: parsePnpmLock_def pnpmLockBody_def prodAndDev_def pushIfAny_def)

lemma parsePyprojectToml_not_object:
  "toml_parse content = Some doc \<Longrightarrow> \<not> isObject doc \<Longrightarrow> parsePyprojectToml toml_parse content = []"
  by (erule not_object_cases)
     (auto simp: parsePyprojectToml_def safeTomlParse_def pyprojectBody_def optChain_def Let_def)

lemma parsePipfile_not_object:
  "toml_parse content = Some doc \<Longrightarrow> \<not> isObject doc \<Longrightarrow> parsePipfile toml_parse content = []"
  by (erule not_object_cases)
     (auto simp: parsePipfile_def safeTomlParse_def pipfileBody_def lowercasedSection_def optChain_def Let_def)

lemma parsePoetryLock_not_object:
  "toml_parse content = Some doc \<Longrightarrow> \<not> isObject doc \<Longrightarrow> parsePoetryLock toml_parse content = []"
  by (erule not_object_cases)
     (auto simp: parsePoetryLock_def safeTomlParse_def poetryLockBody_def pushIfAny_def optChain_def Let_def)

lemma parseCargoToml_not_object:
  "toml_parse content = Some doc \<Longrightarrow> \<not> isObject doc \<Longrightarrow> parseCargoToml toml_parse content = []"
  by (erule not_object_cases)
     (auto simp: parseCargoToml_def safeTomlParseRust_def cargoTomlBody_def cargoSection_def optChain_def Let_def)

lemma parseCargoLock_not_object:
  "toml_parse content = Some doc \<Longrightarrow> \<not> isObject doc \<Longrightarrow> parseCargoLock toml_parse content = []"
  by (erule not_object_cases)
     (auto simp: parseCargoLock_def safeTomlParseRust_def cargoLockBody_def optChain_def Let_def)

lemma parsePomXml_not_object:
  "parseString content = Some doc \<Longrightarrow> \<not> isObject doc \<Longrightarrow> parsePomXml textOf parseString content = []"
  by (erule not_object_cases) (auto simp: parsePomXml_def)

lemma parseCsproj_not_object:
  "parseString content = Some doc \<Longrightarrow> \<not> isObject doc \<Longrightarrow> parseCsproj parseString content = []"
  by (erule not_object_cases) (auto simp: parseCsproj_def csprojBody_def optChain_def Let_def)

subsection \<open>A text in which nothing matches\<close>

lemma foldl_invariant:
  assumes "P st" and "\<And>st x. x \<in> set xs \<Longrightarrow> P st \<Longrightarrow> P (f st x)"
  shows "P (foldl f st xs)"
  using assms by (induction xs arbitrary: st) auto

lemma requirementLines_no_match:
  assumes "\<forall>line \<in> set ls. matchStart requirementRe (trim line) = None
                          \<and> matchStart nameRe (trim line) = None"
  shows "requirementLines deps ls = Some deps"
  using assms by (induction ls) (simp_all add: requirementLine_def Let_def)

lemma parseRequirementsTxt_no_match:
  "\<not> anyRequirementLine content \<Longrightarrow> parseRequirementsTxt content = []"
  using requirementLines_no_match[of "split CHR 0x0A content" "[]"]
  by (simp add: anyRequirementLine_def parseRequirementsTxt_def list_ex_iff)

lemma parseYarnLock_no_match:
  assumes "\<not> anyYarnVersionLine content"
  shows "parseYarnLock content = []"
proof -
  have "fst (foldl yarnLine ([], None) (split CHR 0x0A content)) = []"
  proof (rule foldl_invariant[where P = "\<lambda>st. fst st = []"])
    fix st :: "(jsval \<times> jsval) list \<times> string option" and x
    assume "x \<in> set (split CHR 0x0A content)" and "fst st = []"
    moreover from this assms have "matchAnywhere yarnVersionRe x = None"
      by (auto simp: anyYarnVersionLine_def list_ex_iff)
    ultimately show "fst (yarnLine st x) = []"
      by (cases st) (simp add: yarnLine_def Let_def split: option.splits)
  qed simp
  then show ?thesis by (simp add: parseYarnLock_def)
qed

lemma parseGoMod_no_match:
  assumes "\<not> anyGoRequireLine content"
  shows "parseGoMod content = []"
proof -
  have "fst (foldl goModLine ([], False) (split CHR 0x0A content)) = []"
  proof (rule foldl_invariant[where P = "\<lambda>st. fst st = []"])
    fix st :: "(jsval \<times> jsval) list \<times> bool" and x
    assume "x \<in> set (split CHR 0x0A content)" and "fst st = []"
    moreover from this assms have "matchStart goBlockRe (trim x) = None"
      and "matchStart goRequireRe (trim x) = None"
      by (auto simp: anyGoRequireLine_def list_ex_iff)
    ultimately show "fst (goModLine st x) = []"
      by (cases st) (simp add: goModLine_def Let_def)
  qed simp
  then show ?thesis by (simp add: parseGoMod_def)
qed

lemma parseGoSum_no_match:
  assumes "\<not> anyGoSumLine content"
  shows "parseGoSum content = []"
proof -
  have "foldl goSumLine [] (split CHR 0x0A content) = []"
  proof (rule foldl_invariant[where P = "\<lambda>deps. deps = []"])
    fix deps :: "(jsval \<times> jsval) list" and x
    assume "x \<in> set (split CHR 0x0A content)" and "deps = []"
    moreover from this assms have "matchStart goSumRe (trim x) = None"
      by (auto simp: anyGoSumLine_def list_ex_iff)
    ultimately show "goSumLine deps x = []"
      by (simp add: goSumLine_def Let_def)
  qed simp
  then show ?thesis by (simp add: parseGoSum_def)
qed

lemma parseGemfile_no_match:
  assumes "\<not> anyGemLine content"
  shows "parseGemfile content = []"
proof -
  have "fst (foldl gemfileLine ([], [], False) (split CHR 0x0A content)) = []
      \<and> fst (snd (foldl gemfileLine ([], [], False) (split CHR 0x0A content))) = []"
  proof (rule foldl_invariant[where P = "\<lambda>st. fst st = [] \<and> fst (snd st) = []"])
    fix st :: "(jsval \<times> jsval) list \<times> (jsval \<times> jsval) list \<times> bool" and x
    assume "x \<in> set (split CHR 0x0A content)" and "fst st = [] \<and> fst (snd st) = []"
    moreover from this assms have "matchStart gemRe (trim x) = None"
      by (auto simp: anyGemLine_def list_ex_iff)
    ultimately show "fst (gemfileLine st x) = [] \<and> fst (snd (gemfileLine st x)) = []"
      by (cases st) (simp add: gemfileLine_def Let_def)
  qed simp
  then show ?thesis
    by (cases "foldl gemfileLine ([], [], False) (split CHR 0x0A content)")
       (simp add: parseGemfile_def prodAndDev_def pushIfAny_def)
qed

lemma parseGemfileLock_no_match:
  assumes "\<not> anyGemSpecLine content"
  shows "parseGemfileLock content = []"
proof -
  have "fst (foldl gemfileLockLine ([], False) (split CHR 0x0A content)) = []"
  proof (rule foldl_invariant[where P = "\<lambda>st. fst st = []"])
    fix st :: "(jsval \<times> jsval) list \<times> bool" and x
    assume "x \<in> set (split CHR 0x0A content)" and "fst st = []"
    moreover from this assms have "matchStart gemSpecRe x = None"
      by (auto simp: anyGemSpecLine_def list_ex_iff)
    ultimately show "fst (gemfileLockLine st x) = []"
      by (cases st) (simp add: gemfileLockLine_def)
  qed simp
  then show ?thesis by (simp add: parseGemfileLock_def)
qed

lemma allMatches_no_match:
  "matchAnywhere r s = None \<Longrightarrow> allMatches r s = []"
proof (induction s)
  case Nil
  then show ?case by (subst allMatches.simps) (simp add: matchStart_def split: list.splits)
next
  case (Cons c cs)
  from Cons.prems have a: "rmatch r (c # cs, Map.empty) = []" and b: "matchAnywhere r cs = None"
    by (auto simp: matchStart_def split: list.splits option.splits)
  show ?case using a Cons.IH[OF b] by (subst allMatches.simps) simp
qed

lemma parseBuildGradle_no_match:
  "\<not> anyGradleDeclaration content \<Longrightarrow> parseBuildGradle content = []"
  by (simp add: anyGradleDeclaration_def parseBuildGradle_def allMatches_no_match pushIfAny_def)

subsection \<open>The empty string, a truncated JSON text, an unfinished XML text\<close>

lemma nothing_matches_empty:
  "\<not> anyRequirementLine ''''" "\<not> anyYarnVersionLine ''''" "\<not> anyGoRequireLine ''''"
  "\<not> anyGoSumLine ''''" "\<not> anyGemLine ''''" "\<not> anyGemSpecLine ''''"
  "\<not> anyGradleDeclaration ''''"
  by (simp_all add: anyRequirementLine_def anyYarnVersionLine_def anyGoRequireLine_def
      anyGoSumLine_def anyGemLine_def anyGemSpecLine_def anyGradleDeclaration_def
      requirementRe_def nameRe_def yarnVersionRe_def goRequireRe_def goBlockRe_def
      goModuleVersion_def goSumRe_def gemRe_def gemSpecRe_def gradlePattern_def
      kotlinPattern_def gradleProdKeyword_def gradleTestKeyword_def line_eval)

lemma nothing_matches_truncatedJson:
  "\<not> anyRequirementLine truncatedJson" "\<not> anyYarnVersionLine truncatedJson"
  "\<not> anyGoRequireLine truncatedJson" "\<not> anyGoSumLine truncatedJson"
  "\<not> anyGemLine truncatedJson" "\<not> anyGemSpecLine truncatedJson"
  "\<not> anyGradleDeclaration truncatedJson"
  by (simp_all add: anyRequirementLine_def anyYarnVersionLine_def anyGoRequireLine_def
      anyGoSumLine_def anyGemLine_def anyGemSpecLine_def anyGradleDeclaration_def
      requirementRe_def nameRe_def yarnVersionRe_def goRequireRe_def goBlockRe_def
      goModuleVersion_def goSumRe_def gemRe_def gemSpecRe_def gradlePattern_def
      kotlinPattern_def gradleProdKeyword_def gradleTestKeyword_def truncatedJson_def line_eval)

lemma nothing_matches_invalidXml:
  "\<not> anyRequirementLine invalidXml" "\<not> anyYarnVersionLine invalidXml"
  "\<not> anyGoRequireLine invalidXml" "\<not> anyGoSumLine invalidXml"
  "\<not> anyGemLine invalidXml" "\<not> anyGemSpecLine invalidXml"
  "\<not> anyGradleDeclaration invalidXml"
  by (simp_all add: anyRequirementLine_def anyYarnVersionLine_def anyGoRequireLine_def
      anyGoSumLine_def anyGemLine_def anyGemSpecLine_def anyGradleDeclaration_def
      requirementRe_def nameRe_def yarnVersionRe_def goRequireRe_def goBlockRe_def
      goModuleVersion_def goSumRe_def gemRe_def gemSpecRe_def gradlePattern_def
      kotlinPattern_def gradleProdKeyword_def gradleTestKeyword_def invalidXml_def line_eval)

subsection \<open>package-lock.json has no depth guard\<close>

text \<open>
  \<open>parsePackageJson\<close> calls \<open>checkJsonDepth\<close> before \<open>JSON.parse\<close>;
  \<open>parsePackageLockJson\<close>, in the same file, calls \<open>JSON.parse\<close> at once. On a text
  that the guard rejects the first returns the empty list and the second the entries
  of the file.
\<close>

lemma parsePackageLockJson_unguarded:
  "\<not> checkJsonDepth deepLockText MAX_JSON_DEPTH
   \<and> parsePackageJson (\<lambda>_. Some deepLockDocument) deepLockText = []
   \<and> parsePackageLockJson (\<lambda>_. Some deepLockDocument) deepLockText
       = [\<lparr>dependencies = [(''a'', JStr ''1.0.0'')], dependencyType' = Production\<rparr>]"
proof -
  have "\<not> checkJsonDepth deepLockText MAX_JSON_DEPTH"
    by (simp add: checkJsonDepth_def deepLockText_def deepJson_def MAX_JSON_DEPTH_def
        isOpenBracket_def isCloseBracket_def)
  moreover from this
  have "parsePackageJson (\<lambda>_. Some deepLockDocument) deepLockText = []"
    by (simp add: parsePackageJson_def)
  moreover
  have "parsePackageLockJson (\<lambda>_. Some deepLockDocument) deepLockText
       = [\<lparr>dependencies = [(''a'', JStr ''1.0.0'')], dependencyType' = Production\<rparr>]"
    by (simp add: parsePackageLockJson_def packageLockBody_def deepLockDocument_def
        lockV3Entry_def prodAndDev_def pushIfAny_def removePrefix_def)
  ultimately show ?thesis by simp
qed

subsection \<open>What the parsers return for a text that is not what they expect\<close>

text \<open>
  C5, as stated, fails: a \<open>go.mod\<close> that is cut off inside its \<open>require (\<close> block is
  not a \<open>go.mod\<close> file, and \<open>parseGoMod\<close> returns the module that the last line
  names. The parser reads line by line and never looks for the end of the block.
\<close>

theorem parseGoMod_truncated_file:
  "parseGoMod truncatedGoMod
     = [\<lparr>dependencies = [(JStr ''github.com/pkg/errors'', JStr ''v0.9.1'')],
         dependencyType' = Production\<rparr>]"
  by (simp add: parseGoMod_def goModLine_def truncatedGoMod_def goRequireRe_def goBlockRe_def
      goModuleVersion_def captured_def line_eval)

text \<open>
  C5, as amended: every parser is a function from the text, and from what the
  library's loader does with it, to a list of groups; an exception inside the \<open>try\<close>
  block is the value \<open>None\<close> of the block's model, which the parser turns into the empty
  list. A parser that loads the text with a library returns the empty list whenever the
  loader throws or reports an error, and whenever what it loads is not an object; the
  six parsers with a depth guard also whenever the guard rejects the text. A parser that
  scans the text itself returns the empty list whenever nothing in the text matches the
  pattern of its entries. Nothing is said here about \<open>package-lock.json\<close> and
  \<open>pnpm-lock.yaml\<close> on a deeply nested text that their loaders accept.
\<close>

theorem parsers_empty_on_rejected_text:
  fixes JSON_parse yaml_load toml_parse parseString :: loader
  shows
  "(JSON_parse content = None \<or> \<not> checkJsonDepth content MAX_JSON_DEPTH
      \<or> (\<exists>doc. JSON_parse content = Some doc \<and> \<not> isObject doc)
    \<longrightarrow> parsePackageJson JSON_parse content = [])
   \<and> (JSON_parse content = None \<or> (\<exists>doc. JSON_parse content = Some doc \<and> \<not> isObject doc)
    \<longrightarrow> parsePackageLockJson JSON_parse content = [])
   \<and> (yaml_load content = None \<or> (\<exists>doc. yaml_load content = Some doc \<and> \<not> isObject doc)
    \<longrightarrow> parsePnpmLock yaml_load content = [])
   \<and> (toml_parse content = None \<or> \<not> checkNestingDepth content MAX_NESTING_DEPTH
      \<or> (\<exists>doc. toml_parse content = Some doc \<and> \<not> isObject doc)
    \<longrightarrow> parsePyprojectToml toml_parse content = [] \<and> parsePipfile toml_parse content = []
        \<and> parsePoetryLock toml_parse content = [])
   \<and> (toml_parse content = None \<or> \<not> checkNestingDepthRust content MAX_NESTING_DEPTH
      \<or> (\<exists>doc. toml_parse content = Some doc \<and> \<not> isObject doc)
    \<longrightarrow> parseCargoToml toml_parse content = [] \<and> parseCargoLock toml_parse content = [])
   \<and> (parseString content = None \<or> (\<exists>doc. parseString content = Some doc \<and> \<not> isObject doc)
    \<longrightarrow> parsePomXml textOf parseString content = [] \<and> parseCsproj parseString content = []
        \<and> parsePackagesConfig parseString content = [])
   \<and> (\<not> anyRequirementLine content \<longrightarrow> parseRequirementsTxt content = [])
   \<and> (\<not> anyYarnVersionLine content \<longrightarrow> parseYarnLock content = [])
   \<and> (\<not> anyGoRequireLine content \<longrightarrow> parseGoMod content = [])
   \<and> (\<not> anyGoSumLine content \<longrightarrow> parseGoSum content = [])
   \<and> (\<not> anyGemLine content \<longrightarrow> parseGemfile content = [])
   \<and> (\<not> anyGemSpecLine content \<longrightarrow> parseGemfileLock content = [])
   \<and> (\<not> anyGradleDeclaration content \<longrightarrow> parseBuildGradle content = [])"
proof -
  have json: "JSON_parse content = None \<or> \<not> checkJsonDepth content MAX_JSON_DEPTH
      \<or> (\<exists>doc. JSON_parse content = Some doc \<and> \<not> isObject doc)
    \<longrightarrow> parsePackageJson JSON_parse content = []"
    using parsePackageJson_fails[of JSON_parse content]
      parsePackageJson_not_object[of JSON_parse content] by blast
  have lock: "JSON_parse content = None
      \<or> (\<exists>doc. JSON_parse content = Some doc \<and> \<not> isObject doc)
    \<longrightarrow> parsePackageLockJson JSON_parse content = []"
    using parsePackageLockJson_fails[of JSON_parse content]
      parsePackageLockJson_not_object[of JSON_parse content] by blast
  have pnpm: "yaml_load content = None \<or> (\<exists>doc. yaml_load content = Some doc \<and> \<not> isObject doc)
    \<longrightarrow> parsePnpmLock yaml_load content = []"
    using parsePnpmLock_fails[of yaml_load content]
      parsePnpmLock_not_object[of yaml_load content] by blast
  have python: "toml_parse content = None \<or> \<not> checkNestingDepth content MAX_NESTING_DEPTH
      \<or> (\<exists>doc. toml_parse content = Some doc \<and> \<not> isObject doc)
    \<longrightarrow> parsePyprojectToml toml_parse content = [] \<and> parsePipfile toml_parse content = []
        \<and> parsePoetryLock toml_parse content = []"
    using parsePyprojectToml_fails[of toml_parse content]
      parsePipfile_fails[of toml_parse content] parsePoetryLock_fails[of toml_parse content]
      parsePyprojectToml_not_object[of toml_parse content]
      parsePipfile_not_object[of toml_parse content]
      parsePoetryLock_not_object[of toml_parse content] by blast
  have rust: "toml_parse content = None \<or> \<not> checkNestingDepthRust content MAX_NESTING_DEPTH
      \<or> (\<exists>doc. toml_parse content = Some doc \<and> \<not> isObject doc)
    \<longrightarrow> parseCargoToml toml_parse content = [] \<and> parseCargoLock toml_parse content = []"
    using parseCargoToml_fails[of toml_parse content] parseCargoLock_fails[of toml_parse content]
      parseCargoToml_not_object[of toml_parse content]
      parseCargoLock_not_object[of toml_parse content] by blast
  have xml: "parseString content = None
      \<or> (\<exists>doc. parseString content = Some doc \<and> \<not> isObject doc)
    \<longrightarrow> parsePomXml textOf parseString content = [] \<and> parseCsproj parseString content = []
        \<and> parsePackagesConfig parseString content = []"
    using parsePomXml_fails[of parseString content textOf]
      parseCsproj_fails[of parseString content]
      parsePomXml_not_object[of parseString content _ textOf]
      parseCsproj_not_object[of parseString content]
    by (auto simp: parsePackagesConfig_def)
  show ?thesis
    using json lock pnpm python rust xml
      parseRequirementsTxt_no_match[of content] parseYarnLock_no_match[of content]
      parseGoMod_no_match[of content] parseGoSum_no_match[of content]
      parseGemfile_no_match[of content] parseGemfileLock_no_match[of content]
      parseBuildGradle_no_match[of content]
    by blast
qed

text \<open>
  C5 on a truncated \<open>package.json\<close>, on 21 nested arrays, on the JSON text \<open>null\<close>, on
  the empty string (which \<open>yaml.load\<close> reads as \<open>undefined\<close>) and on an unfinished
  \<open>pom.xml\<close>, each with a loader that does on it what the library does; and, for the
  parsers that scan the text, on the empty string and on the two cut-off texts.
\<close>

theorem parsers_empty_on_rejected_text_witness:
  "parsePackageJson (\<lambda>_. None) truncatedJson = []
   \<and> parsePackageLockJson (\<lambda>_. None) truncatedJson = []
   \<and> \<not> checkJsonDepth deepJson MAX_JSON_DEPTH
   \<and> parsePackageJson (\<lambda>_. Some (((\<lambda>v. JArr [v]) ^^ 20) (JArr []))) deepJson = []
   \<and> \<not> checkNestingDepth deepJson MAX_NESTING_DEPTH
   \<and> parsePipfile (\<lambda>_. None) deepJson = []
   \<and> \<not> checkNestingDepthRust deepJson MAX_NESTING_DEPTH
   \<and> parseCargoToml (\<lambda>_. None) deepJson = []
   \<and> \<not> isObject JNull
   \<and> parsePackageJson (\<lambda>_. Some JNull) ''null'' = []
   \<and> parsePackageLockJson (\<lambda>_. Some JNull) ''null'' = []
   \<and> \<not> isObject JUndefined
   \<and> parsePnpmLock (\<lambda>_. Some JUndefined) '''' = []
   \<and> parsePomXml (\<lambda>_. None) (\<lambda>_. None) invalidXml = []
   \<and> parseCsproj (\<lambda>_. None) invalidXml = []
   \<and> parseRequirementsTxt '''' = [] \<and> parseYarnLock '''' = [] \<and> parseGoMod '''' = []
   \<and> parseGoSum '''' = [] \<and> parseGemfile '''' = [] \<and> parseGemfileLock '''' = []
   \<and> parseBuildGradle '''' = []
   \<and> parseRequirementsTxt truncatedJson = [] \<and> parseGoMod truncatedJson = []
   \<and> parseYarnLock invalidXml = [] \<and> parseBuildGradle invalidXml = []"
proof -
  have deep: "\<not> checkJsonDepth deepJson MAX_JSON_DEPTH"
    by (simp add: checkJsonDepth_def deepJson_def MAX_JSON_DEPTH_def isOpenBracket_def
        isCloseBracket_def)
  have deepToml: "\<not> checkNestingDepth deepJson MAX_NESTING_DEPTH"
    by (simp add: checkNestingDepth_def deepJson_def MAX_NESTING_DEPTH_def isOpenBracket_def
        isCloseBracket_def)
  have deepRust: "\<not> checkNestingDepthRust deepJson MAX_NESTING_DEPTH"
    by (simp add: checkNestingDepthRust_def deepJson_def MAX_NESTING_DEPTH_def isOpenBracket_def
        isCloseBracket_def)
  have null: "\<not> isObject JNull" and undef: "\<not> isObject JUndefined"
    by (simp_all add: isObject_def)
  note a = parsers_empty_on_rejected_text
             [where JSON_parse = "\<lambda>_. None" and content = truncatedJson
                and parseString = "\<lambda>_. None" and yaml_load = "\<lambda>_. None"
                and toml_parse = "\<lambda>_. None" and textOf = "\<lambda>_. None"]
  note b = parsers_empty_on_rejected_text
             [where JSON_parse = "\<lambda>_. Some (((\<lambda>v. JArr [v]) ^^ 20) (JArr []))"
                and content = deepJson
                and parseString = "\<lambda>_. None" and yaml_load = "\<lambda>_. None"
                and toml_parse = "\<lambda>_. None" and textOf = "\<lambda>_. None"]
  note c = parsers_empty_on_rejected_text
             [where JSON_parse = "\<lambda>_. Some JNull" and content = "''null''"
                and parseString = "\<lambda>_. None" and yaml_load = "\<lambda>_. None"
                and toml_parse = "\<lambda>_. None" and textOf = "\<lambda>_. None"]
  note d = parsers_empty_on_rejected_text
             [where JSON_parse = "\<lambda>_. None" and content = "''''"
                and parseString = "\<lambda>_. None" and yaml_load = "\<lambda>_. Some JUndefined"
                and toml_parse = "\<lambda>_. None" and textOf = "\<lambda>_. None"]
  note e = parsers_empty_on_rejected_text
             [where JSON_parse = "\<lambda>_. None" and content = invalidXml
                and parseString = "\<lambda>_. None" and yaml_load = "\<lambda>_. None"
                and toml_parse = "\<lambda>_. None" and textOf = "\<lambda>_. None"]
  have "parsePackageJson (\<lambda>_. None) truncatedJson = []"
    and "parsePackageLockJson (\<lambda>_. None) truncatedJson = []"
    and "parseRequirementsTxt truncatedJson = []" and "parseGoMod truncatedJson = []"
    using a nothing_matches_truncatedJson by simp_all
  moreover have "parsePackageJson (\<lambda>_. Some (((\<lambda>v. JArr [v]) ^^ 20) (JArr []))) deepJson = []"
    and "parsePipfile (\<lambda>_. None) deepJson = []"
    and "parseCargoToml (\<lambda>_. None) deepJson = []"
    using b deep deepToml deepRust by simp_all
  moreover have "parsePackageJson (\<lambda>_. Some JNull) ''null'' = []"
    and "parsePackageLockJson (\<lambda>_. Some JNull) ''null'' = []"
    using c null by simp_all
  moreover have "parsePnpmLock (\<lambda>_. Some JUndefined) '''' = []"
    and "parseRequirementsTxt '''' = []" and "parseYarnLock '''' = []" and "parseGoMod '''' = []"
    and "parseGoSum '''' = []" and "parseGemfile '''' = []" and "parseGemfileLock '''' = []"
    and "parseBuildGradle '''' = []"
    using d undef nothing_matches_empty by simp_all
  moreover have "parsePomXml (\<lambda>_. None) (\<lambda>_. None) invalidXml = []"
    and "parseCsproj (\<lambda>_. None) invalidXml = []"
    and "parseYarnLock invalidXml = []" and "parseBuildGradle invalidXml = []"
    using e nothing_matches_invalidXml by simp_all
  ultimately show ?thesis using deep deepToml deepRust null undef by simp
qed

end
